theory Spec2Isabelle
  imports Complex_Main
begin

section \<open>FFmpegWriter: the encode-and-mux pipeline of libopenshot\<close>

text \<open>
  A shallow embedding of \<^verbatim>\<open>src/FFmpegWriter.cpp\<close>. The member variables of the class
  become the record \<open>FFmpegWriter\<close>, every member function takes the writer and returns
  the updated one, and every \<^verbatim>\<open>throw\<close> is a result \<open>Inl\<close> of the sum type
  \<open>error + FFmpegWriter\<close>. The functions of libavcodec, libavformat and libswscale
  that the writer calls are not part of the repository: they are the fields of the
  record \<open>libav\<close>, and every theorem holds for all of them.
\<close>

subsection \<open>Errors and machine integers\<close>

text \<open>
  What C++ leaves undefined (signed overflow, a null pointer that is dereferenced, a
  copy outside a buffer) is a result of its own, so that no theorem speaks about a
  call whose behaviour the language does not fix.
\<close>

datatype undefined_behaviour =
    SignedOverflow
  | NullDereference
  | OutOfBounds
  | DivisionByZero
  | FloatToIntOverflow

datatype error =
    InvalidCodec
  | OutOfMemory
  | InvalidSampleRate
  | InvalidChannels
  | InvalidOptions
  | ResampleError
  | ErrorEncodingAudio int
  | ErrorEncodingVideo int
  | BadAlloc
  | Undefined undefined_behaviour

text \<open>\<^verbatim>\<open>int\<close> is 32 bits wide; \<open>chk\<close> guards the result of an arithmetic operation.\<close>

definition in_int :: "int \<Rightarrow> bool" where
  "in_int x \<longleftrightarrow> - 2147483648 \<le> x \<and> x \<le> 2147483647"

definition chk :: "int \<Rightarrow> error + int" where
  "chk x = (if in_int x then Inr x else Inl (Undefined SignedOverflow))"

text \<open>Division of C++ truncates towards zero.\<close>

definition tdiv :: "int \<Rightarrow> int \<Rightarrow> int" where
  "tdiv a b = sgn a * sgn b * (\<bar>a\<bar> div \<bar>b\<bar>)"

subsection \<open>Fractions\<close>

record Fraction =
  num :: int
  den :: int

text \<open>
  Modelled from the spec: \<^verbatim>\<open>Fraction::Reduce\<close> lives in \<^verbatim>\<open>Fraction.cpp\<close>, which is not
  among the sources. The specification describes it as an exact integer reduction:
  numerator and denominator are both divided by their greatest common divisor. It
  says nothing about the fraction 0/0, which this definition leaves as it is.
\<close>

definition Reduce :: "Fraction \<Rightarrow> Fraction" where
  "Reduce f = \<lparr>num = tdiv (num f) (gcd (num f) (den f)),
               den = tdiv (den f) (gcd (num f) (den f))\<rparr>"

subsection \<open>The data of libav that the writer touches\<close>

datatype CodecID =
    CODEC_ID_NONE
  | CODEC_ID_MPEG1VIDEO
  | CODEC_ID_MPEG2VIDEO
  | CODEC_ID_PCM_S16LE
  | CODEC_ID_PCM_S16BE
  | CODEC_ID_PCM_U16LE
  | CODEC_ID_PCM_U16BE
  | CODEC_ID_OTHER nat

datatype AVMediaType = AVMEDIA_TYPE_UNKNOWN | AVMEDIA_TYPE_VIDEO | AVMEDIA_TYPE_AUDIO

datatype AVSampleFormat =
    AV_SAMPLE_FMT_NONE
  | AV_SAMPLE_FMT_U8
  | AV_SAMPLE_FMT_S16
  | AV_SAMPLE_FMT_S32
  | AV_SAMPLE_FMT_FLT
  | AV_SAMPLE_FMT_DBL

datatype PixelFormat = PIX_FMT_NONE | PIX_FMT_YUV420P | PIX_FMT_RGB24 | PIX_FMT_OTHER nat

datatype format_flag = AVFMT_NOFILE | AVFMT_GLOBALHEADER | AVFMT_RAWPICTURE

datatype codec_flag = CODEC_FLAG_GLOBAL_HEADER

datatype packet_flag = AV_PKT_FLAG_KEY

text \<open>The two channel layouts the writer asks for, with the values of libavutil.\<close>

definition AV_CH_LAYOUT_MONO :: int where
  "AV_CH_LAYOUT_MONO = 4"

definition AV_CH_LAYOUT_STEREO :: int where
  "AV_CH_LAYOUT_STEREO = 3"

text \<open>\<^verbatim>\<open>av_get_bytes_per_sample\<close>, the table of libavutil.\<close>

fun av_get_bytes_per_sample :: "AVSampleFormat \<Rightarrow> int" where
  "av_get_bytes_per_sample AV_SAMPLE_FMT_NONE = 0"
| "av_get_bytes_per_sample AV_SAMPLE_FMT_U8 = 1"
| "av_get_bytes_per_sample AV_SAMPLE_FMT_S16 = 2"
| "av_get_bytes_per_sample AV_SAMPLE_FMT_S32 = 4"
| "av_get_bytes_per_sample AV_SAMPLE_FMT_FLT = 4"
| "av_get_bytes_per_sample AV_SAMPLE_FMT_DBL = 8"

text \<open>
  An \<^verbatim>\<open>AVCodec\<close>. Its three capability arrays are null (\<open>None\<close>) or end with a
  terminator: 0 for the rates and the layouts, \<^verbatim>\<open>AV_SAMPLE_FMT_NONE\<close> for the formats.
  The end of the list stands for the terminator when the list holds none.
\<close>

record AVCodec =
  codec_name :: string
  codec_ident :: CodecID
  supported_samplerates :: "int list option"
  channel_layouts :: "int list option"
  sample_fmts :: "AVSampleFormat list option"

text \<open>The frame the encoder has just coded: its timestamp (\<open>None\<close> is
  \<^verbatim>\<open>AV_NOPTS_VALUE\<close>) and whether it is a key frame.\<close>

record AVFrame_coded =
  coded_pts :: "int option"
  key_frame :: bool

record AVCodecContext =
  codec_id :: CodecID
  codec_type :: AVMediaType
  bit_rate :: int
  ctx_channels :: int
  ctx_sample_rate :: int
  channel_layout :: int
  sample_fmt :: AVSampleFormat
  time_base :: Fraction
  gop_size :: int
  qmin :: int
  qmax :: int
  max_b_frames :: int
  mb_decision :: int
  ctx_width :: int
  ctx_height :: int
  pix_fmt :: PixelFormat
  ctx_flags :: "codec_flag set"
  frame_size :: int
  priv_data :: "(string \<times> string) list"

record AVStream =
  index :: int
  codec :: AVCodecContext
  st_time_base :: Fraction

record AVOutputFormat =
  video_codec :: CodecID
  audio_codec :: CodecID
  flags :: "format_flag set"

subsection \<open>The state of the writer\<close>

text \<open>The fields of \<^verbatim>\<open>info\<close> (the struct \<^verbatim>\<open>WriterInfo\<close>) that the writer reads or writes.\<close>

record WriterInfo =
  has_video :: bool
  has_audio :: bool
  vcodec :: string
  acodec :: string
  fps :: Fraction
  video_timebase :: Fraction
  width :: int
  height :: int
  pixel_ratio :: Fraction
  display_ratio :: Fraction
  video_bit_rate :: int
  audio_bit_rate :: int
  interlaced_frame :: bool
  top_field_first :: bool
  sample_rate :: int
  channels :: int

record AVFormatContext =
  streams :: "AVStream list"

text \<open>What a packet carries: the bytes of the encoder, or the picture itself in the raw
  picture mode.\<close>

datatype payload = NoData | EncodedBytes "nat list" | RawPicture "nat list"

record AVPacket =
  pkt_pts :: "int option"
  pkt_flags :: "packet_flag set"
  stream_index :: int
  pkt_data :: payload
  pkt_size :: int

text \<open>\<^verbatim>\<open>av_init_packet\<close>: no timestamp, no flag.\<close>

definition av_init_packet :: AVPacket where
  "av_init_packet =
     \<lparr>pkt_pts = None, pkt_flags = {}, stream_index = 0, pkt_data = NoData, pkt_size = 0\<rparr>"

text \<open>
  The member variables. A stream pointer (\<^verbatim>\<open>video_st\<close>, \<^verbatim>\<open>audio_st\<close>) is null
  (\<open>None\<close>) or the position of the stream in \<^verbatim>\<open>oc->streams\<close>. A buffer that is not
  allocated is the empty list. The path and the two timestamp counters, which none of
  the functions below reads, are left out. Four fields are not in the class:
  \<open>audio_encoded\<close> and \<open>video_encoded\<close> list what the two encoders were given,
  \<open>written\<close> the packets handed to the container, and \<open>scaled\<close> counts the calls of
  the pixel converter.
\<close>

record FFmpegWriter =
  info :: WriterInfo
  fmt :: AVOutputFormat
  oc :: AVFormatContext
  audio_st :: "nat option"
  video_st :: "nat option"
  samples :: "int list"
  audio_outbuf :: "nat list"
  audio_outbuf_size :: int
  audio_input_frame_size :: int
  initial_audio_input_frame_size :: int
  audio_input_position :: int
  converted_audio :: "int list"
  resampler :: bool
  audio_encoded :: "int list list"
  video_encoded :: "nat list list"
  written :: "AVPacket list"
  scaled :: nat

text \<open>
  A \<^verbatim>\<open>Frame\<close> of the frame source: its sequence number, its picture (one red, green
  and blue value for each pixel), and its audio. \<open>interleaved_audio_samples\<close> is
  \<^verbatim>\<open>GetInterleavedAudioSamples\<close>: from the target sample rate and the sample count it
  is handed to the samples and the count it hands back. A finite \<^verbatim>\<open>float\<close> is a
  rational number.
\<close>

record Frame =
  number :: int
  frame_width :: int
  frame_height :: int
  pixels :: "(nat \<times> nat \<times> nat) list"
  audio_samples_count :: int
  audio_channels_count :: int
  interleaved_audio_samples :: "int \<Rightarrow> int \<Rightarrow> rat list \<times> int"

datatype Stream_Type = VIDEO_STREAM | AUDIO_STREAM

subsection \<open>The library behind the writer\<close>

text \<open>
  The functions of libavcodec, libavformat, libavutil and libswscale that the writer
  calls, and the integer extraction of \<^verbatim>\<open>std::stringstream\<close>. An encoder and the
  container keep a state of their own, so each of them also receives what it was
  given before.
\<close>

record encoded =
  enc_size :: int
  enc_bytes :: "nat list"
  coded_frame :: "AVFrame_coded option"

record libav =
  avcodec_find_encoder_by_name :: "string \<Rightarrow> AVCodec option"
  avcodec_find_encoder :: "CodecID \<Rightarrow> AVCodec option"
  new_stream :: "AVStream list \<Rightarrow> AVCodec \<Rightarrow> AVStream option"
  avcodec_open2 :: "AVCodecContext \<Rightarrow> AVCodec \<Rightarrow> AVCodecContext option"
  av_set_string3 :: "(string \<times> string) list \<Rightarrow> string \<Rightarrow> string \<Rightarrow> (string \<times> string) list"
  extract_int :: "string \<Rightarrow> int \<Rightarrow> int"
  AVCODEC_MAX_AUDIO_FRAME_SIZE :: int
  FF_INPUT_BUFFER_PADDING_SIZE :: int
  av_audio_resample_init :: "int \<Rightarrow> int \<Rightarrow> int \<Rightarrow> int \<Rightarrow> AVSampleFormat \<Rightarrow> AVSampleFormat \<Rightarrow> bool"
  audio_resample :: "int \<Rightarrow> int \<Rightarrow> AVSampleFormat \<Rightarrow> int list \<Rightarrow> int \<Rightarrow> int list"
  avcodec_encode_audio :: "int list list \<Rightarrow> AVCodecContext \<Rightarrow> int list \<Rightarrow> encoded"
  avcodec_encode_video :: "nat list list \<Rightarrow> AVCodecContext \<Rightarrow> nat list \<Rightarrow> encoded"
  av_interleaved_write_frame :: "AVPacket list \<Rightarrow> AVPacket \<Rightarrow> int"
  avcodec_alloc_frame :: bool
  avpicture_get_size :: "PixelFormat \<Rightarrow> int \<Rightarrow> int \<Rightarrow> int"
  sws_getContext :: "int \<Rightarrow> int \<Rightarrow> PixelFormat \<Rightarrow> int \<Rightarrow> int \<Rightarrow> PixelFormat \<Rightarrow> bool"
  sws_scale :: "nat list \<Rightarrow> int \<Rightarrow> int \<Rightarrow> int \<Rightarrow> int \<Rightarrow> PixelFormat \<Rightarrow> nat list \<Rightarrow> nat list"
  sizeof_AVPicture :: int

text \<open>\<^verbatim>\<open>avformat_new_stream\<close>: the new stream goes to the end of \<^verbatim>\<open>oc->streams\<close> and
  its index is its position there; null when the allocation fails.\<close>

definition avformat_new_stream ::
  "libav \<Rightarrow> AVFormatContext \<Rightarrow> AVCodec \<Rightarrow> (nat \<times> AVFormatContext) option" where
  "avformat_new_stream av ctx cdc =
     (case new_stream av (streams ctx) cdc of
        None \<Rightarrow> None
      | Some st \<Rightarrow>
          Some (length (streams ctx),
                ctx\<lparr>streams := streams ctx @ [st\<lparr>index := int (length (streams ctx))\<rparr>]\<rparr>))"

text \<open>\<^verbatim>\<open>av_find_opt\<close> on the private options of a codec, a list of names and values.\<close>

definition av_find_opt :: "(string \<times> string) list \<Rightarrow> string \<Rightarrow> string option" where
  "av_find_opt priv nm = map_of priv nm"

text \<open>Reading and writing through a stream pointer.\<close>

definition deref :: "FFmpegWriter \<Rightarrow> nat option \<Rightarrow> error + (nat \<times> AVStream)" where
  "deref w p =
     (case p of
        None \<Rightarrow> Inl (Undefined NullDereference)
      | Some i \<Rightarrow>
          if i < length (streams (oc w)) then Inr (i, streams (oc w) ! i)
          else Inl (Undefined NullDereference))"

definition set_stream_codec :: "FFmpegWriter \<Rightarrow> nat \<Rightarrow> AVCodecContext \<Rightarrow> FFmpegWriter" where
  "set_stream_codec w i c =
     w\<lparr>oc := (oc w)\<lparr>streams := (streams (oc w))[i := (streams (oc w) ! i)\<lparr>codec := c\<rparr>]\<rparr>\<rparr>"

text \<open>\<^verbatim>\<open>memcpy(dst + d, src + s, n)\<close> on arrays of equal element size.\<close>

definition memcpy :: "'a list \<Rightarrow> int \<Rightarrow> 'a list \<Rightarrow> int \<Rightarrow> int \<Rightarrow> error + 'a list" where
  "memcpy dst d src s n =
     (if 0 \<le> n \<and> 0 \<le> d \<and> 0 \<le> s \<and> d + n \<le> int (length dst) \<and> s + n \<le> int (length src)
      then Inr (take (nat d) dst @ take (nat n) (drop (nat s) src) @ drop (nat (d + n)) dst)
      else Inl (Undefined OutOfBounds))"

subsection \<open>The option store\<close>

text \<open>
  \<^verbatim>\<open>SetVideoOptions\<close>. A parameter is merged only when it passes its test; the two
  interlace flags and the enabled flag are assigned without a test. The display
  aspect ratio is computed from the stored values after the merge.
\<close>

definition SetVideoOptions ::
  "libav \<Rightarrow> FFmpegWriter \<Rightarrow> bool \<Rightarrow> string \<Rightarrow> Fraction \<Rightarrow> int \<Rightarrow> int \<Rightarrow> Fraction \<Rightarrow>
   bool \<Rightarrow> bool \<Rightarrow> int \<Rightarrow> error + FFmpegWriter" where
  "SetVideoOptions av w has_video_p codec_p fps_p width_p height_p pixel_ratio_p
       interlaced_p top_field_first_p bit_rate_p =
     (case (if length codec_p > 0 then
              (case avcodec_find_encoder_by_name av codec_p of
                 None \<Rightarrow> Inl InvalidCodec
               | Some new_codec \<Rightarrow>
                   Inr (w\<lparr>info := (info w)\<lparr>vcodec := codec_name new_codec\<rparr>,
                          fmt := (fmt w)\<lparr>video_codec := codec_ident new_codec\<rparr>\<rparr>))
            else Inr w) of
        Inl e \<Rightarrow> Inl e
      | Inr w1 \<Rightarrow>
          let i1 = info w1;
              i2 = (if num fps_p > 0
                    then i1\<lparr>fps := \<lparr>num = num fps_p, den = den fps_p\<rparr>,
                            video_timebase := \<lparr>num = den fps_p, den = num fps_p\<rparr>\<rparr>
                    else i1);
              i3 = (if width_p \<ge> 1 then i2\<lparr>width := width_p\<rparr> else i2);
              i4 = (if height_p \<ge> 1 then i3\<lparr>height := height_p\<rparr> else i3);
              i5 = (if num pixel_ratio_p > 0
                    then i4\<lparr>pixel_ratio := \<lparr>num = num pixel_ratio_p, den = den pixel_ratio_p\<rparr>\<rparr>
                    else i4);
              i6 = (if bit_rate_p \<ge> 1000 then i5\<lparr>video_bit_rate := bit_rate_p\<rparr> else i5);
              i7 = i6\<lparr>interlaced_frame := interlaced_p, top_field_first := top_field_first_p\<rparr>
          in (case chk (width i7 * num (pixel_ratio i7)) of
                Inl e \<Rightarrow> Inl e
              | Inr size_n \<Rightarrow>
                  (case chk (height i7 * den (pixel_ratio i7)) of
                     Inl e \<Rightarrow> Inl e
                   | Inr size_d \<Rightarrow>
                       let sz = Reduce \<lparr>num = size_n, den = size_d\<rparr>
                       in Inr (w1\<lparr>info := i7\<lparr>display_ratio := \<lparr>num = num sz, den = den sz\<rparr>,
                                               has_video := has_video_p\<rparr>\<rparr>))))"

text \<open>\<^verbatim>\<open>SetAudioOptions\<close>.\<close>

definition SetAudioOptions ::
  "libav \<Rightarrow> FFmpegWriter \<Rightarrow> bool \<Rightarrow> string \<Rightarrow> int \<Rightarrow> int \<Rightarrow> int \<Rightarrow> error + FFmpegWriter" where
  "SetAudioOptions av w has_audio_p codec_p sample_rate_p channels_p bit_rate_p =
     (case (if length codec_p > 0 then
              (case avcodec_find_encoder_by_name av codec_p of
                 None \<Rightarrow> Inl InvalidCodec
               | Some new_codec \<Rightarrow>
                   Inr (w\<lparr>info := (info w)\<lparr>acodec := codec_name new_codec\<rparr>,
                          fmt := (fmt w)\<lparr>audio_codec := codec_ident new_codec\<rparr>\<rparr>))
            else Inr w) of
        Inl e \<Rightarrow> Inl e
      | Inr w1 \<Rightarrow>
          let i1 = info w1;
              i2 = (if sample_rate_p > 7999 then i1\<lparr>sample_rate := sample_rate_p\<rparr> else i1);
              i3 = (if channels_p > 0 then i2\<lparr>channels := channels_p\<rparr> else i2);
              i4 = (if bit_rate_p > 999 then i3\<lparr>audio_bit_rate := bit_rate_p\<rparr> else i3)
          in Inr (w1\<lparr>info := i4\<lparr>has_audio := has_audio_p\<rparr>\<rparr>))"

text \<open>
  \<^verbatim>\<open>SetOption\<close>. The codec context \<open>c\<close> stays null when the media kind of the stream
  is not enabled; only the search for a private option is guarded by \<open>c\<close>. The five
  names of the writer's own assign through \<open>c\<close> without a test.
\<close>

definition well_known_option :: "string \<Rightarrow> bool" where
  "well_known_option nm \<longleftrightarrow>
     nm = ''g'' \<or> nm = ''qmin'' \<or> nm = ''qmax'' \<or> nm = ''max_b_frames'' \<or> nm = ''mb_decision''"

definition apply_option :: "libav \<Rightarrow> AVCodecContext \<Rightarrow> string \<Rightarrow> string \<Rightarrow> AVCodecContext" where
  "apply_option av c nm val =
     (if nm = ''g'' then c\<lparr>gop_size := extract_int av val (gop_size c)\<rparr>
      else if nm = ''qmin'' then c\<lparr>qmin := extract_int av val (qmin c)\<rparr>
      else if nm = ''qmax'' then c\<lparr>qmax := extract_int av val (qmax c)\<rparr>
      else if nm = ''max_b_frames'' then c\<lparr>max_b_frames := extract_int av val (max_b_frames c)\<rparr>
      else if nm = ''mb_decision'' then c\<lparr>mb_decision := extract_int av val (mb_decision c)\<rparr>
      else c\<lparr>priv_data := av_set_string3 av (priv_data c) nm val\<rparr>)"

definition SetOption ::
  "libav \<Rightarrow> FFmpegWriter \<Rightarrow> Stream_Type \<Rightarrow> string \<Rightarrow> string \<Rightarrow> error + FFmpegWriter" where
  "SetOption av w stream nm val =
     (case (if has_video (info w) \<and> stream = VIDEO_STREAM then
              (case deref w (video_st w) of
                 Inl e \<Rightarrow> Inl e
               | Inr (i, st) \<Rightarrow> Inr (Some (i, codec st)))
            else if has_audio (info w) \<and> stream = AUDIO_STREAM then
              (case deref w (audio_st w) of
                 Inl e \<Rightarrow> Inl e
               | Inr (i, st) \<Rightarrow> Inr (Some (i, codec st)))
            else Inr None) of
        Inl e \<Rightarrow> Inl e
      | Inr cp \<Rightarrow>
          let option = (case cp of None \<Rightarrow> None | Some (i, c) \<Rightarrow> av_find_opt (priv_data c) nm)
          in if option \<noteq> None \<or> well_known_option nm then
               (case cp of
                  None \<Rightarrow> Inl (Undefined NullDereference)
                | Some (i, c) \<Rightarrow> Inr (set_stream_codec w i (apply_option av c nm val)))
             else Inl InvalidOptions)"

subsection \<open>The stream builder\<close>

text \<open>The scan of a capability array: up to the first match, or to the terminator.\<close>

fun scan_array :: "int \<Rightarrow> int list \<Rightarrow> bool" where
  "scan_array v [] = False"
| "scan_array v (x # xs) = (if x = 0 then False else if v = x then True else scan_array v xs)"

text \<open>The three negotiations of \<^verbatim>\<open>add_audio_stream\<close>: the sample rate and the
  channel layout are taken as requested or refused, the sample format is the first
  that the encoder lists, or signed 16 bit when the context has none.\<close>

definition set_valid_sample_rate ::
  "AVCodec \<Rightarrow> WriterInfo \<Rightarrow> AVCodecContext \<Rightarrow> error + AVCodecContext" where
  "set_valid_sample_rate cdc wi c =
     (case supported_samplerates cdc of
        Some rates \<Rightarrow>
          if scan_array (sample_rate wi) rates
          then Inr (c\<lparr>ctx_sample_rate := sample_rate wi\<rparr>)
          else Inl InvalidSampleRate
      | None \<Rightarrow> Inr (c\<lparr>ctx_sample_rate := sample_rate wi\<rparr>))"

definition set_valid_channel_layout ::
  "AVCodec \<Rightarrow> WriterInfo \<Rightarrow> AVCodecContext \<Rightarrow> error + AVCodecContext" where
  "set_valid_channel_layout cdc wi c =
     (let layout = (if channels wi = 1 then AV_CH_LAYOUT_MONO else AV_CH_LAYOUT_STEREO)
      in (case channel_layouts cdc of
            Some layouts \<Rightarrow>
              if scan_array layout layouts
              then Inr (c\<lparr>channel_layout := layout\<rparr>)
              else Inl InvalidChannels
          | None \<Rightarrow> Inr (c\<lparr>channel_layout := layout\<rparr>)))"

definition choose_sample_fmt :: "AVCodec \<Rightarrow> AVCodecContext \<Rightarrow> AVCodecContext" where
  "choose_sample_fmt cdc c =
     (let c1 = (case sample_fmts cdc of
                  Some (f # fs) \<Rightarrow> if f \<noteq> AV_SAMPLE_FMT_NONE then c\<lparr>sample_fmt := f\<rparr> else c
                | _ \<Rightarrow> c)
      in if sample_fmt c1 = AV_SAMPLE_FMT_NONE then c1\<lparr>sample_fmt := AV_SAMPLE_FMT_S16\<rparr> else c1)"

definition global_header :: "AVOutputFormat \<Rightarrow> AVCodecContext \<Rightarrow> AVCodecContext" where
  "global_header f c =
     (if AVFMT_GLOBALHEADER \<in> flags f
      then c\<lparr>ctx_flags := insert CODEC_FLAG_GLOBAL_HEADER (ctx_flags c)\<rparr> else c)"

text \<open>\<^verbatim>\<open>add_audio_stream\<close>: the position of the new stream, and the writer that holds it.\<close>

definition add_audio_stream :: "libav \<Rightarrow> FFmpegWriter \<Rightarrow> error + (nat \<times> FFmpegWriter)" where
  "add_audio_stream av w =
     (case avcodec_find_encoder_by_name av (acodec (info w)) of
        None \<Rightarrow> Inl InvalidCodec
      | Some cdc \<Rightarrow>
          (case avformat_new_stream av (oc w) cdc of
             None \<Rightarrow> Inl OutOfMemory
           | Some (st, oc1) \<Rightarrow>
               let c0 = codec (streams oc1 ! st);
                   c1 = c0\<lparr>codec_id := codec_ident cdc, codec_type := AVMEDIA_TYPE_AUDIO,
                           bit_rate := audio_bit_rate (info w), ctx_channels := channels (info w)\<rparr>;
                   c2 = (if den (time_base c1) = 0 \<or> num (time_base c1) = 0
                         then c1\<lparr>time_base := \<lparr>num = num (st_time_base (streams oc1 ! st)),
                                                den = den (st_time_base (streams oc1 ! st))\<rparr>\<rparr>
                         else c1)
               in (case set_valid_sample_rate cdc (info w) c2 of
                     Inl e \<Rightarrow> Inl e
                   | Inr c3 \<Rightarrow>
                       (case set_valid_channel_layout cdc (info w) c3 of
                          Inl e \<Rightarrow> Inl e
                        | Inr c4 \<Rightarrow>
                            Inr (st, set_stream_codec (w\<lparr>oc := oc1\<rparr>) st
                                       (global_header (fmt w) (choose_sample_fmt cdc c4)))))))"

text \<open>\<^verbatim>\<open>add_video_stream\<close>.\<close>

definition add_video_stream :: "libav \<Rightarrow> FFmpegWriter \<Rightarrow> error + (nat \<times> FFmpegWriter)" where
  "add_video_stream av w =
     (case avcodec_find_encoder_by_name av (vcodec (info w)) of
        None \<Rightarrow> Inl InvalidCodec
      | Some cdc \<Rightarrow>
          (case avformat_new_stream av (oc w) cdc of
             None \<Rightarrow> Inl OutOfMemory
           | Some (st, oc1) \<Rightarrow>
               let w1 = w\<lparr>oc := oc1\<rparr>;
                   c0 = codec (streams oc1 ! st);
                   c1 = c0\<lparr>codec_id := codec_ident cdc, codec_type := AVMEDIA_TYPE_VIDEO,
                           bit_rate := video_bit_rate (info w),
                           ctx_width := width (info w), ctx_height := height (info w),
                           time_base := \<lparr>num = num (video_timebase (info w)),
                                          den = den (video_timebase (info w))\<rparr>,
                           gop_size := 12, pix_fmt := PIX_FMT_YUV420P\<rparr>;
                   c2 = (if codec_id c1 = CODEC_ID_MPEG2VIDEO then c1\<lparr>max_b_frames := 2\<rparr> else c1);
                   c3 = (if codec_id c2 = CODEC_ID_MPEG1VIDEO then c2\<lparr>mb_decision := 2\<rparr> else c2)
               in Inr (st, set_stream_codec w1 st (global_header (fmt w) c3))))"

text \<open>\<^verbatim>\<open>initialize_streams\<close>: a stream is added for a media kind that is enabled and
  for which the container has a codec.\<close>

definition initialize_streams :: "libav \<Rightarrow> FFmpegWriter \<Rightarrow> error + FFmpegWriter" where
  "initialize_streams av w =
     (let w0 = w\<lparr>video_st := None, audio_st := None\<rparr> in
      (case (if video_codec (fmt w0) \<noteq> CODEC_ID_NONE \<and> has_video (info w0) then
               (case add_video_stream av w0 of
                  Inl e \<Rightarrow> Inl e
                | Inr (st, w1) \<Rightarrow> Inr (w1\<lparr>video_st := Some st\<rparr>))
             else Inr w0) of
         Inl e \<Rightarrow> Inl e
       | Inr w2 \<Rightarrow>
           if audio_codec (fmt w2) \<noteq> CODEC_ID_NONE \<and> has_audio (info w2) then
             (case add_audio_stream av w2 of
                Inl e \<Rightarrow> Inl e
              | Inr (st, w3) \<Rightarrow> Inr (w3\<lparr>audio_st := Some st\<rparr>))
           else Inr w2))"

text \<open>\<^verbatim>\<open>open_video\<close> and \<^verbatim>\<open>open_audio\<close>. The latter fixes the size of an encoder
  chunk and allocates the three audio buffers.\<close>

definition open_video :: "libav \<Rightarrow> FFmpegWriter \<Rightarrow> nat option \<Rightarrow> error + FFmpegWriter" where
  "open_video av w st_p =
     (case deref w st_p of
        Inl e \<Rightarrow> Inl e
      | Inr (i, st) \<Rightarrow>
          (case avcodec_find_encoder av (codec_id (codec st)) of
             None \<Rightarrow> Inl InvalidCodec
           | Some cdc \<Rightarrow>
               (case avcodec_open2 av (codec st) cdc of
                  None \<Rightarrow> Inl InvalidCodec
                | Some c1 \<Rightarrow> Inr (set_stream_codec w i c1))))"

definition pcm_16 :: "CodecID \<Rightarrow> bool" where
  "pcm_16 cid \<longleftrightarrow>
     cid = CODEC_ID_PCM_S16LE \<or> cid = CODEC_ID_PCM_S16BE \<or>
     cid = CODEC_ID_PCM_U16LE \<or> cid = CODEC_ID_PCM_U16BE"

definition open_audio :: "libav \<Rightarrow> FFmpegWriter \<Rightarrow> nat option \<Rightarrow> error + FFmpegWriter" where
  "open_audio av w st_p =
     (case deref w st_p of
        Inl e \<Rightarrow> Inl e
      | Inr (i, st) \<Rightarrow>
          (case avcodec_find_encoder av (codec_id (codec st)) of
             None \<Rightarrow> Inl InvalidCodec
           | Some cdc \<Rightarrow>
               (case avcodec_open2 av (codec st) cdc of
                  None \<Rightarrow> Inl InvalidCodec
                | Some c \<Rightarrow>
                    (case (if frame_size c \<le> 1 then
                             (if channels (info w) = 0 then Inl (Undefined DivisionByZero)
                              else let f = tdiv 50000 (channels (info w))
                                   in Inr (if pcm_16 (codec_id c) then f div 2 else f))
                           else chk (frame_size c * channels (info w))) of
                       Inl e \<Rightarrow> Inl e
                     | Inr f \<Rightarrow>
                         let cap = AVCODEC_MAX_AUDIO_FRAME_SIZE av + FF_INPUT_BUFFER_PADDING_SIZE av
                         in if cap < 0 then Inl BadAlloc
                            else Inr ((set_stream_codec w i c)
                                   \<lparr>audio_input_frame_size := f,
                                    initial_audio_input_frame_size := f,
                                    samples := replicate (nat cap) 0,
                                    audio_outbuf_size := cap,
                                    audio_outbuf := replicate (nat cap) 0,
                                    converted_audio := replicate (nat cap) 0\<rparr>)))))"

text \<open>\<^verbatim>\<open>PrepareStreams\<close>.\<close>

definition PrepareStreams :: "libav \<Rightarrow> FFmpegWriter \<Rightarrow> error + FFmpegWriter" where
  "PrepareStreams av w =
     (if \<not> has_audio (info w) \<and> \<not> has_video (info w) then Inl InvalidOptions
      else
        (case initialize_streams av w of
           Inl e \<Rightarrow> Inl e
         | Inr w1 \<Rightarrow>
             (case (if has_video (info w1) \<and> video_st w1 \<noteq> None
                    then open_video av w1 (video_st w1) else Inr w1) of
                Inl e \<Rightarrow> Inl e
              | Inr w2 \<Rightarrow>
                  if has_audio (info w2) \<and> audio_st w2 \<noteq> None
                  then open_audio av w2 (audio_st w2) else Inr w2)))"

subsection \<open>The audio accumulator\<close>

text \<open>
  A sample of the frame is a \<^verbatim>\<open>float\<close>; \<^verbatim>\<open>int(x * (1 << 15))\<close> scales it by a power of
  two, which is exact, and drops the fraction. The value is then stored in an
  \<^verbatim>\<open>int16_t\<close>.
\<close>

definition float_to_int :: "rat \<Rightarrow> error + int" where
  "float_to_int x =
     (let t = (if x \<ge> 0 then \<lfloor>x\<rfloor> else \<lceil>x\<rceil>)
      in if in_int t then Inr t else Inl (Undefined FloatToIntOverflow))"

definition to_int16 :: "int \<Rightarrow> int" where
  "to_int16 v = (v + 32768) mod 65536 - 32768"

fun translate_samples :: "rat list \<Rightarrow> error + int list" where
  "translate_samples [] = Inr []"
| "translate_samples (x # xs) =
     (case float_to_int (x * 32768) of
        Inl e \<Rightarrow> Inl e
      | Inr v \<Rightarrow>
          (case translate_samples xs of
             Inl e \<Rightarrow> Inl e
           | Inr vs \<Rightarrow> Inr (to_int16 v # vs)))"

text \<open>The packet of one encoded chunk: always flagged as a key frame.\<close>

definition audio_packet :: "encoded \<Rightarrow> int \<Rightarrow> AVPacket" where
  "audio_packet enc st_index =
     (let pkt0 = av_init_packet\<lparr>pkt_size := enc_size enc\<rparr>;
          pkt1 = (case coded_frame enc of
                    None \<Rightarrow> pkt0
                  | Some cf \<Rightarrow> if coded_pts cf \<noteq> None then pkt0\<lparr>pkt_pts := coded_pts cf\<rparr> else pkt0)
      in pkt1\<lparr>pkt_flags := insert AV_PKT_FLAG_KEY (pkt_flags pkt1),
              stream_index := st_index,
              pkt_data := EncodedBytes (enc_bytes enc)\<rparr>)"

text \<open>
  The loop of \<^verbatim>\<open>write_audio_packet\<close>, with its three counters. It does not return when
  the chunk size is 0 and the container accepts every packet, so its result is an
  option: \<open>None\<close> is the loop that runs forever.
\<close>

definition samples_needed :: "int \<Rightarrow> int \<Rightarrow> int" where
  "samples_needed remaining_frame_samples remaining_packet_samples =
     (if remaining_frame_samples \<ge> remaining_packet_samples then remaining_packet_samples
      else if remaining_frame_samples < remaining_packet_samples then remaining_frame_samples
      else 0)"

partial_function (option) write_audio_loop ::
  "libav \<Rightarrow> AVCodecContext \<Rightarrow> int \<Rightarrow> int \<Rightarrow> int list \<Rightarrow> FFmpegWriter \<Rightarrow> int \<Rightarrow> int \<Rightarrow>
   (error + FFmpegWriter) option" where
  "write_audio_loop av c st_index frame_number frame_samples w samples_position
       remaining_frame_samples =
     (if remaining_frame_samples > 0 then
        (case chk (audio_input_frame_size w - audio_input_position w) of
           Inl e \<Rightarrow> Some (Inl e)
         | Inr remaining_packet_samples \<Rightarrow>
             let diff = samples_needed remaining_frame_samples remaining_packet_samples in
             (case memcpy (samples w) (audio_input_position w) frame_samples samples_position diff of
                Inl e \<Rightarrow> Some (Inl e)
              | Inr samples1 \<Rightarrow>
                  let w1 = w\<lparr>samples := samples1,
                             audio_input_position := audio_input_position w + diff\<rparr>
                  in if audio_input_position w1 < audio_input_frame_size w1 then Some (Inr w1)
                  else
                    let chunk = take (nat (audio_input_frame_size w1)) (samples w1);
                        enc = avcodec_encode_audio av (audio_encoded w1) c chunk;
                        pkt = audio_packet enc st_index;
                        w2 = w1\<lparr>audio_outbuf := enc_bytes enc,
                                audio_encoded := audio_encoded w1 @ [chunk]\<rparr>
                    in if av_interleaved_write_frame av (written w2) pkt \<noteq> 0
                       then Some (Inl (ErrorEncodingAudio frame_number))
                       else write_audio_loop av c st_index frame_number frame_samples
                              (w2\<lparr>written := written w2 @ [pkt], audio_input_position := 0\<rparr>)
                              (samples_position + diff)
                              (remaining_frame_samples - diff)))
      else Some (Inr w))"

text \<open>
  \<^verbatim>\<open>write_audio_packet\<close> up to its loop: the samples of the frame as 16 bit integers,
  then the conversion to the sample format and the channels of the encoder where
  they differ, which also sets the chunk size anew. The result is the writer, the
  buffer \<^verbatim>\<open>frame_samples\<close> (it has the capacity of the other audio buffers) and the
  number of samples in it.
\<close>

definition frame_samples_for_encoder ::
  "libav \<Rightarrow> FFmpegWriter \<Rightarrow> AVCodecContext \<Rightarrow> Frame \<Rightarrow> error + (FFmpegWriter \<times> int list \<times> int)" where
  "frame_samples_for_encoder av w c frame =
     (let sample_rate_in_frame = sample_rate (info w);
          channels_in_frame = audio_channels_count frame;
          (frame_samples_float, samples_in_frame) =
             interleaved_audio_samples frame (sample_rate (info w)) (audio_samples_count frame);
          cap = AVCODEC_MAX_AUDIO_FRAME_SIZE av + FF_INPUT_BUFFER_PADDING_SIZE av
      in if cap < 0 then Inl BadAlloc
         else
           (case chk (samples_in_frame * channels_in_frame) of
              Inl e \<Rightarrow> Inl e
            | Inr total_frame_samples \<Rightarrow>
                if total_frame_samples > cap
                   \<or> total_frame_samples > int (length frame_samples_float)
                then Inl (Undefined OutOfBounds)
                else
                  (case translate_samples (take (nat total_frame_samples) frame_samples_float) of
                     Inl e \<Rightarrow> Inl e
                   | Inr vs \<Rightarrow>
                       let frame_samples = vs @ replicate (nat cap - length vs) 0 in
                       if sample_fmt c \<noteq> AV_SAMPLE_FMT_S16 \<or> channels (info w) \<noteq> channels_in_frame
                       then
                         (if \<not> av_audio_resample_init av (channels (info w)) channels_in_frame
                                 (sample_rate (info w)) sample_rate_in_frame
                                 (sample_fmt c) AV_SAMPLE_FMT_S16
                          then Inl ResampleError
                          else
                            let out = audio_resample av (channels (info w)) channels_in_frame
                                        (sample_fmt c) frame_samples total_frame_samples
                            in (case memcpy (converted_audio w) 0 out 0 (int (length out)) of
                                  Inl e \<Rightarrow> Inl e
                                | Inr converted \<Rightarrow>
                                    (case chk (total_frame_samples
                                            * tdiv (av_get_bytes_per_sample (sample_fmt c))
                                                (av_get_bytes_per_sample AV_SAMPLE_FMT_S16)) of
                                       Inl e \<Rightarrow> Inl e
                                     | Inr total1 \<Rightarrow>
                                         (case chk (initial_audio_input_frame_size w
                                                 * tdiv (av_get_bytes_per_sample (sample_fmt c))
                                                     (av_get_bytes_per_sample AV_SAMPLE_FMT_S16)) of
                                            Inl e \<Rightarrow> Inl e
                                          | Inr f \<Rightarrow>
                                              (case memcpy frame_samples 0 converted 0 total1 of
                                                 Inl e \<Rightarrow> Inl e
                                               | Inr frame_samples1 \<Rightarrow>
                                                   Inr (w\<lparr>converted_audio := converted,
                                                          audio_input_frame_size := f\<rparr>,
                                                        frame_samples1, total1))))))
                       else Inr (w, frame_samples, total_frame_samples))))"

text \<open>\<^verbatim>\<open>write_audio_packet\<close>.\<close>

definition write_audio_packet ::
  "libav \<Rightarrow> FFmpegWriter \<Rightarrow> Frame \<Rightarrow> (error + FFmpegWriter) option" where
  "write_audio_packet av w frame =
     (case deref w (audio_st w) of
        Inl e \<Rightarrow> Some (Inl e)
      | Inr (i, st) \<Rightarrow>
          (case frame_samples_for_encoder av (w\<lparr>resampler := True\<rparr>) (codec st) frame of
             Inl e \<Rightarrow> Some (Inl e)
           | Inr (w1, frame_samples, remaining_frame_samples) \<Rightarrow>
               write_audio_loop av (codec st) (index st) (number frame) frame_samples w1 0
                 remaining_frame_samples))"

subsection \<open>The video converter and the packet emitter\<close>

text \<open>\<^verbatim>\<open>allocate_avframe\<close>: the buffer of the picture and its size in bytes.\<close>

definition allocate_avframe ::
  "libav \<Rightarrow> PixelFormat \<Rightarrow> int \<Rightarrow> int \<Rightarrow> error + (nat list \<times> int)" where
  "allocate_avframe av pf wd ht =
     (if \<not> avcodec_alloc_frame av then Inl OutOfMemory
      else let buffer_size = avpicture_get_size av pf wd ht
           in if buffer_size < 0 then Inl BadAlloc
              else Inr (replicate (nat buffer_size) 0, buffer_size))"

text \<open>The loop that fills the source picture: three bytes for each pixel.\<close>

function fill_rgb ::
  "(nat \<times> nat \<times> nat) list \<Rightarrow> nat list \<Rightarrow> int \<Rightarrow> int \<Rightarrow> int \<Rightarrow> error + nat list" where
  "fill_rgb pixel_packets data packet row bytes_source =
     (if row < bytes_source then
        (if 0 \<le> row \<and> row + 2 < int (length data)
            \<and> 0 \<le> packet \<and> packet < int (length pixel_packets)
         then
           (case pixel_packets ! nat packet of
              (red, green, blue) \<Rightarrow>
                fill_rgb pixel_packets
                  (data[nat row := red mod 256, nat row + 1 := green mod 256,
                        nat row + 2 := blue mod 256])
                  (packet + 1) (row + 3) bytes_source)
         else Inl (Undefined OutOfBounds))
      else Inr data)"
  by pat_completeness auto
termination
  by (relation "measure (\<lambda>(pixel_packets, data, packet, row, bytes_source). nat (bytes_source - row))")
     auto

text \<open>The packet of a coded picture: a key frame only when the encoder says so.\<close>

definition video_packet :: "encoded \<Rightarrow> AVFrame_coded \<Rightarrow> int \<Rightarrow> AVPacket" where
  "video_packet enc cf st_index =
     (let pkt0 = av_init_packet;
          pkt1 = (if coded_pts cf \<noteq> None then pkt0\<lparr>pkt_pts := coded_pts cf\<rparr> else pkt0);
          pkt2 = (if key_frame cf
                  then pkt1\<lparr>pkt_flags := insert AV_PKT_FLAG_KEY (pkt_flags pkt1)\<rparr> else pkt1)
      in pkt2\<lparr>stream_index := st_index,
              pkt_data := EncodedBytes (enc_bytes enc),
              pkt_size := enc_size enc\<rparr>)"

text \<open>The packet of the raw picture mode.\<close>

definition raw_video_packet :: "libav \<Rightarrow> nat list \<Rightarrow> int \<Rightarrow> AVPacket" where
  "raw_video_packet av frame_final st_index =
     av_init_packet\<lparr>pkt_flags := insert AV_PKT_FLAG_KEY (pkt_flags av_init_packet),
                    stream_index := st_index,
                    pkt_data := RawPicture frame_final,
                    pkt_size := sizeof_AVPicture av\<rparr>"

text \<open>The first half of \<^verbatim>\<open>write_video_packet\<close>: the picture of the frame, scaled and
  converted to the pixel format and the size of the stream.\<close>

definition convert_picture ::
  "libav \<Rightarrow> FFmpegWriter \<Rightarrow> AVCodecContext \<Rightarrow> Frame \<Rightarrow> error + nat list" where
  "convert_picture av w c frame =
     (case allocate_avframe av PIX_FMT_RGB24 (frame_width frame) (frame_height frame) of
        Inl e \<Rightarrow> Inl e
      | Inr (frame_source, bytes_source) \<Rightarrow>
          (case allocate_avframe av (pix_fmt c) (width (info w)) (height (info w)) of
             Inl e \<Rightarrow> Inl e
           | Inr (frame_final, bytes_final) \<Rightarrow>
               (case fill_rgb (pixels frame) frame_source 0 0 bytes_source of
                  Inl e \<Rightarrow> Inl e
                | Inr frame_source1 \<Rightarrow>
                    if \<not> sws_getContext av (frame_width frame) (frame_height frame) PIX_FMT_RGB24
                           (width (info w)) (height (info w)) (pix_fmt c)
                    then Inl OutOfMemory
                    else Inr (sws_scale av frame_source1 (frame_width frame) (frame_height frame)
                                (width (info w)) (height (info w)) (pix_fmt c) frame_final))))"

text \<open>\<^verbatim>\<open>write_video_packet\<close>: the picture is converted, then written as it is in the raw
  picture mode, and encoded otherwise; an encoder that reports no output has buffered
  the picture, and nothing is written.\<close>

definition write_video_packet :: "libav \<Rightarrow> FFmpegWriter \<Rightarrow> Frame \<Rightarrow> error + FFmpegWriter" where
  "write_video_packet av w frame =
     (case deref w (video_st w) of
        Inl e \<Rightarrow> Inl e
      | Inr (i, st) \<Rightarrow>
          (case convert_picture av w (codec st) frame of
             Inl e \<Rightarrow> Inl e
           | Inr frame_final \<Rightarrow>
               let w1 = w\<lparr>scaled := Suc (scaled w)\<rparr>
               in if AVFMT_RAWPICTURE \<in> flags (fmt w1) then
                    (let pkt = raw_video_packet av frame_final (index st)
                     in if av_interleaved_write_frame av (written w1) pkt \<noteq> 0
                        then Inl (ErrorEncodingVideo (number frame))
                        else Inr (w1\<lparr>written := written w1 @ [pkt]\<rparr>))
                  else
                    (let enc = avcodec_encode_video av (video_encoded w1) (codec st) frame_final;
                         w2 = w1\<lparr>video_encoded := video_encoded w1 @ [frame_final]\<rparr>
                     in if enc_size enc > 0 then
                          (case coded_frame enc of
                             None \<Rightarrow> Inl (Undefined NullDereference)
                           | Some cf \<Rightarrow>
                               let pkt = video_packet enc cf (index st)
                               in if av_interleaved_write_frame av (written w2) pkt \<noteq> 0
                                  then Inl (ErrorEncodingVideo (number frame))
                                  else Inr (w2\<lparr>written := written w2 @ [pkt]\<rparr>))
                        else Inr w2)))"

subsection \<open>Writing frames\<close>

text \<open>\<^verbatim>\<open>WriteFrame(Frame*)\<close>.\<close>

definition WriteFrame :: "libav \<Rightarrow> FFmpegWriter \<Rightarrow> Frame \<Rightarrow> (error + FFmpegWriter) option" where
  "WriteFrame av w frame =
     (case (if has_video (info w) \<and> video_st w \<noteq> None
            then write_video_packet av w frame else Inr w) of
        Inl e \<Rightarrow> Some (Inl e)
      | Inr w1 \<Rightarrow>
          if has_audio (info w1) \<and> audio_st w1 \<noteq> None
          then write_audio_packet av w1 frame else Some (Inr w1))"

text \<open>
  \<^verbatim>\<open>WriteFrame(FileReaderBase*, int, int)\<close>: the loop over the frame numbers, from
  \<open>number\<close> on. The reader is its \<^verbatim>\<open>GetFrame\<close>.
\<close>

function WriteFrame_reader ::
  "libav \<Rightarrow> FFmpegWriter \<Rightarrow> (int \<Rightarrow> Frame) \<Rightarrow> int \<Rightarrow> int \<Rightarrow> (error + FFmpegWriter) option" where
  "WriteFrame_reader av w reader number_p length_p =
     (if number_p \<le> length_p then
        (case WriteFrame av w (reader number_p) of
           None \<Rightarrow> None
         | Some (Inl e) \<Rightarrow> Some (Inl e)
         | Some (Inr w1) \<Rightarrow>
             (case chk (number_p + 1) of
                Inl e \<Rightarrow> Some (Inl e)
              | Inr next_number \<Rightarrow> WriteFrame_reader av w1 reader next_number length_p))
      else Some (Inr w))"
  by pat_completeness auto
termination
  by (relation "measure (\<lambda>(av, w, reader, number_p, length_p). nat (length_p + 1 - number_p))")
     (auto simp: chk_def split: if_splits)

text \<open>The calls of a caller that writes one frame after the other.\<close>

fun write_audio_packets ::
  "libav \<Rightarrow> FFmpegWriter \<Rightarrow> Frame list \<Rightarrow> (error + FFmpegWriter) option" where
  "write_audio_packets av w [] = Some (Inr w)"
| "write_audio_packets av w (frame # frames) =
     (case write_audio_packet av w frame of
        None \<Rightarrow> None
      | Some (Inl e) \<Rightarrow> Some (Inl e)
      | Some (Inr w1) \<Rightarrow> write_audio_packets av w1 frames)"

fun WriteFrames :: "libav \<Rightarrow> FFmpegWriter \<Rightarrow> Frame list \<Rightarrow> (error + FFmpegWriter) option" where
  "WriteFrames av w [] = Some (Inr w)"
| "WriteFrames av w (frame # frames) =
     (case WriteFrame av w frame of
        None \<Rightarrow> None
      | Some (Inl e) \<Rightarrow> Some (Inl e)
      | Some (Inr w1) \<Rightarrow> WriteFrames av w1 frames)"

subsection \<open>What the accumulator is given\<close>

text \<open>
  The chunk size that \<^verbatim>\<open>write_audio_packet\<close> works with for an encoder with the codec
  context \<open>c\<close>: the initial size times the quotient of the byte widths, the value that
  every conversion assigns.
\<close>

definition chunk_size :: "FFmpegWriter \<Rightarrow> AVCodecContext \<Rightarrow> int" where
  "chunk_size w c =
     initial_audio_input_frame_size w
       * tdiv (av_get_bytes_per_sample (sample_fmt c)) (av_get_bytes_per_sample AV_SAMPLE_FMT_S16)"

text \<open>The samples that one call hands to the loop, and those of a sequence of calls.\<close>

definition submitted :: "libav \<Rightarrow> FFmpegWriter \<Rightarrow> Frame \<Rightarrow> int list" where
  "submitted av w frame =
     (case deref w (audio_st w) of
        Inl e \<Rightarrow> []
      | Inr (i, st) \<Rightarrow>
          (case frame_samples_for_encoder av (w\<lparr>resampler := True\<rparr>) (codec st) frame of
             Inl e \<Rightarrow> []
           | Inr (w1, frame_samples, remaining_frame_samples) \<Rightarrow>
               take (nat remaining_frame_samples) frame_samples))"

fun submitted_all :: "libav \<Rightarrow> FFmpegWriter \<Rightarrow> Frame list \<Rightarrow> int list" where
  "submitted_all av w [] = []"
| "submitted_all av w (frame # frames) =
     submitted av w frame @
       (case write_audio_packet av w frame of
          Some (Inr w1) \<Rightarrow> submitted_all av w1 frames
        | _ \<Rightarrow> [])"

text \<open>
  What the conversion branch of \<^verbatim>\<open>write_audio_packet\<close> needs in order to run to its end:
  the samples of the frame fit the buffers and the \<^verbatim>\<open>int16_t\<close> range of the cast, the
  library creates the resample context, its output fits \<^verbatim>\<open>converted_audio\<close>, the two
  products are within \<^verbatim>\<open>int\<close>, and the converted samples fit \<^verbatim>\<open>frame_samples\<close>. The sample
  format of the encoder enters only through the two products.
\<close>

definition conversion_can_run :: "libav \<Rightarrow> FFmpegWriter \<Rightarrow> AVCodecContext \<Rightarrow> Frame \<Rightarrow> bool" where
  "conversion_can_run av w c frame =
     (let (frame_samples_float, samples_in_frame) =
             interleaved_audio_samples frame (sample_rate (info w)) (audio_samples_count frame);
          total_frame_samples = samples_in_frame * audio_channels_count frame;
          cap = AVCODEC_MAX_AUDIO_FRAME_SIZE av + FF_INPUT_BUFFER_PADDING_SIZE av;
          ratio = tdiv (av_get_bytes_per_sample (sample_fmt c))
                    (av_get_bytes_per_sample AV_SAMPLE_FMT_S16)
      in 0 \<le> cap \<and> in_int total_frame_samples \<and> total_frame_samples \<le> cap
         \<and> total_frame_samples \<le> int (length frame_samples_float)
         \<and> (case translate_samples (take (nat total_frame_samples) frame_samples_float) of
               Inl e \<Rightarrow> False
             | Inr vs \<Rightarrow>
                 av_audio_resample_init av (channels (info w)) (audio_channels_count frame)
                   (sample_rate (info w)) (sample_rate (info w)) (sample_fmt c) AV_SAMPLE_FMT_S16
                 \<and> length (audio_resample av (channels (info w)) (audio_channels_count frame)
                              (sample_fmt c) (vs @ replicate (nat cap - length vs) 0)
                              total_frame_samples)
                     \<le> length (converted_audio w)
                 \<and> in_int (total_frame_samples * ratio)
                 \<and> in_int (initial_audio_input_frame_size w * ratio)
                 \<and> 0 \<le> total_frame_samples * ratio
                 \<and> total_frame_samples * ratio \<le> cap
                 \<and> total_frame_samples * ratio \<le> int (length (converted_audio w))))"

text \<open>The number of converted samples of a frame.\<close>

definition converted_total :: "FFmpegWriter \<Rightarrow> AVCodecContext \<Rightarrow> Frame \<Rightarrow> int" where
  "converted_total w c frame =
     snd (interleaved_audio_samples frame (sample_rate (info w)) (audio_samples_count frame))
       * audio_channels_count frame
       * tdiv (av_get_bytes_per_sample (sample_fmt c)) (av_get_bytes_per_sample AV_SAMPLE_FMT_S16)"

text \<open>
  What holds of the accumulator between two calls: the fill position is within the
  chunk and within the buffer, and the chunk size is the one that the conversion
  assigns. After \<^verbatim>\<open>open_audio\<close>, and before the first frame of an encoder whose sample
  format is not signed 16 bit, the chunk size is still the initial one, and the
  accumulator is empty.
\<close>

definition accumulator_ok :: "FFmpegWriter \<Rightarrow> AVCodecContext \<Rightarrow> bool" where
  "accumulator_ok w c \<longleftrightarrow>
     0 \<le> audio_input_position w \<and>
     audio_input_position w < chunk_size w c \<and>
     audio_input_position w \<le> int (length (samples w)) \<and>
     (audio_input_frame_size w = chunk_size w c
      \<or> (sample_fmt c \<noteq> AV_SAMPLE_FMT_S16 \<and> audio_input_position w = 0
          \<and> audio_input_frame_size w = initial_audio_input_frame_size w))"

text \<open>
  What the loop of \<^verbatim>\<open>write_audio_packet\<close> achieves for the samples of the frame from
  \<open>pos\<close> on, \<open>rem\<close> of them: every chunk it gave to the encoder is full, and the chunks
  followed by the filled part of the accumulator are the filled part it started
  with followed by those samples.
\<close>

definition loop_post ::
  "int list \<Rightarrow> FFmpegWriter \<Rightarrow> int \<Rightarrow> int \<Rightarrow> FFmpegWriter \<Rightarrow> bool" where
  "loop_post fs w pos rem w' \<longleftrightarrow>
     (\<exists>chunks. audio_encoded w' = audio_encoded w @ chunks
        \<and> (\<forall>ch\<in>set chunks. int (length ch) = audio_input_frame_size w)
        \<and> concat chunks @ take (nat (audio_input_position w')) (samples w')
            = take (nat (audio_input_position w)) (samples w) @ take (nat rem) (drop (nat pos) fs))
     \<and> 0 \<le> audio_input_position w'
     \<and> audio_input_position w' < audio_input_frame_size w
     \<and> audio_input_position w' \<le> int (length (samples w'))"

text \<open>What the audio path leaves as it is, and what it adds to the packets: key frames
  of the audio stream.\<close>

definition audio_path_effect :: "int \<Rightarrow> FFmpegWriter \<Rightarrow> FFmpegWriter \<Rightarrow> bool" where
  "audio_path_effect st_index w w' \<longleftrightarrow>
     info w' = info w \<and> fmt w' = fmt w \<and> oc w' = oc w \<and> audio_st w' = audio_st w \<and>
     video_st w' = video_st w \<and> scaled w' = scaled w \<and> video_encoded w' = video_encoded w \<and>
     initial_audio_input_frame_size w' = initial_audio_input_frame_size w \<and>
     audio_outbuf_size w' = audio_outbuf_size w \<and>
     (\<exists>ps. written w' = written w @ ps \<and>
        (\<forall>p\<in>set ps. AV_PKT_FLAG_KEY \<in> pkt_flags p \<and> stream_index p = st_index))"

subsection \<open>A small library and a configured writer\<close>

text \<open>
  Three audio encoders and a video encoder, a library that finds them, and a writer
  after its options were set, for running the functions on concrete inputs. The
  audio buffers of this library hold eight samples.
\<close>

definition aac_encoder :: AVCodec where
  "aac_encoder =
     \<lparr>codec_name = ''aac'', codec_ident = CODEC_ID_OTHER 1,
      supported_samplerates = Some [48000, 44100, 0],
      channel_layouts = None,
      sample_fmts = Some [AV_SAMPLE_FMT_S16, AV_SAMPLE_FMT_NONE]\<rparr>"

definition pcm_encoder :: AVCodec where
  "pcm_encoder =
     \<lparr>codec_name = ''pcm_s16le'', codec_ident = CODEC_ID_PCM_S16LE,
      supported_samplerates = None,
      channel_layouts = None,
      sample_fmts = Some [AV_SAMPLE_FMT_S16, AV_SAMPLE_FMT_NONE]\<rparr>"

definition pcm_u8_encoder :: AVCodec where
  "pcm_u8_encoder =
     \<lparr>codec_name = ''pcm_u8'', codec_ident = CODEC_ID_OTHER 2,
      supported_samplerates = None,
      channel_layouts = None,
      sample_fmts = Some [AV_SAMPLE_FMT_U8, AV_SAMPLE_FMT_NONE]\<rparr>"

definition mpeg4_encoder :: AVCodec where
  "mpeg4_encoder =
     \<lparr>codec_name = ''mpeg4'', codec_ident = CODEC_ID_OTHER 3,
      supported_samplerates = None,
      channel_layouts = None,
      sample_fmts = None\<rparr>"

definition default_context :: AVCodecContext where
  "default_context =
     \<lparr>codec_id = CODEC_ID_NONE, codec_type = AVMEDIA_TYPE_UNKNOWN, bit_rate = 0,
      ctx_channels = 0, ctx_sample_rate = 0, channel_layout = 0,
      sample_fmt = AV_SAMPLE_FMT_NONE, time_base = \<lparr>num = 0, den = 1\<rparr>,
      gop_size = 50, qmin = 2, qmax = 31, max_b_frames = 0, mb_decision = 0,
      ctx_width = 0, ctx_height = 0, pix_fmt = PIX_FMT_NONE, ctx_flags = {},
      frame_size = 0, priv_data = []\<rparr>"

definition lib0 :: libav where
  "lib0 =
     \<lparr>avcodec_find_encoder_by_name =
        (\<lambda>nm. if nm = ''aac'' then Some aac_encoder
              else if nm = ''pcm_s16le'' then Some pcm_encoder
              else if nm = ''pcm_u8'' then Some pcm_u8_encoder
              else if nm = ''mpeg4'' then Some mpeg4_encoder
              else None),
      avcodec_find_encoder =
        (\<lambda>cid. if cid = CODEC_ID_OTHER 1 then Some aac_encoder
               else if cid = CODEC_ID_PCM_S16LE then Some pcm_encoder
               else if cid = CODEC_ID_OTHER 2 then Some pcm_u8_encoder
               else if cid = CODEC_ID_OTHER 3 then Some mpeg4_encoder
               else None),
      new_stream =
        (\<lambda>sts cdc. Some \<lparr>index = 0, codec = default_context,
                           st_time_base = \<lparr>num = 1, den = 90000\<rparr>\<rparr>),
      avcodec_open2 = (\<lambda>c cdc. Some (c\<lparr>frame_size := 2\<rparr>)),
      av_set_string3 = (\<lambda>priv nm val. (nm, val) # priv),
      extract_int = (\<lambda>val old. old),
      AVCODEC_MAX_AUDIO_FRAME_SIZE = 6,
      FF_INPUT_BUFFER_PADDING_SIZE = 2,
      av_audio_resample_init = (\<lambda>ch_out ch_in rate_out rate_in fmt_out fmt_in. True),
      audio_resample = (\<lambda>ch_out ch_in fmt_out inp nb. take (nat nb) inp),
      avcodec_encode_audio =
        (\<lambda>earlier c chunk. \<lparr>enc_size = int (length chunk), enc_bytes = [], coded_frame = None\<rparr>),
      avcodec_encode_video =
        (\<lambda>earlier c picture.
           \<lparr>enc_size = 1, enc_bytes = [0],
            coded_frame = Some \<lparr>coded_pts = None, key_frame = (earlier = [])\<rparr>\<rparr>),
      av_interleaved_write_frame = (\<lambda>earlier pkt. 0),
      avcodec_alloc_frame = True,
      avpicture_get_size = (\<lambda>pf wd ht. 3 * wd * ht),
      sws_getContext = (\<lambda>wd ht pf wd1 ht1 pf1. True),
      sws_scale = (\<lambda>src wd ht wd1 ht1 pf dst. dst),
      sizeof_AVPicture = 48\<rparr>"

definition info0 :: WriterInfo where
  "info0 =
     \<lparr>has_video = True, has_audio = True, vcodec = ''mpeg4'', acodec = ''aac'',
      fps = \<lparr>num = 30, den = 1\<rparr>, video_timebase = \<lparr>num = 1, den = 30\<rparr>,
      width = 640, height = 480, pixel_ratio = \<lparr>num = 1, den = 1\<rparr>,
      display_ratio = \<lparr>num = 4, den = 3\<rparr>,
      video_bit_rate = 400000, audio_bit_rate = 128000,
      interlaced_frame = True, top_field_first = True,
      sample_rate = 44100, channels = 2\<rparr>"

definition writer0 :: FFmpegWriter where
  "writer0 =
     \<lparr>info = info0,
      fmt = \<lparr>video_codec = CODEC_ID_OTHER 3, audio_codec = CODEC_ID_OTHER 1, flags = {}\<rparr>,
      oc = \<lparr>streams = []\<rparr>,
      audio_st = None, video_st = None,
      samples = [], audio_outbuf = [], audio_outbuf_size = 0,
      audio_input_frame_size = 0, initial_audio_input_frame_size = 0,
      audio_input_position = 0, converted_audio = [], resampler = False,
      audio_encoded = [], video_encoded = [], written = [], scaled = 0\<rparr>"

text \<open>The writer after \<^verbatim>\<open>PrepareStreams\<close>, for a picture of two pixels: a video stream, an
  audio stream, and a chunk of four samples.\<close>

definition video_stream0 :: AVStream where
  "video_stream0 =
     \<lparr>index = 0,
      codec = default_context
        \<lparr>codec_id := CODEC_ID_OTHER 3, codec_type := AVMEDIA_TYPE_VIDEO, bit_rate := 400000,
         time_base := \<lparr>num = 1, den = 30\<rparr>, gop_size := 12, ctx_width := 2, ctx_height := 1,
         pix_fmt := PIX_FMT_YUV420P, frame_size := 2\<rparr>,
      st_time_base = \<lparr>num = 1, den = 90000\<rparr>\<rparr>"

definition audio_stream1 :: AVStream where
  "audio_stream1 =
     \<lparr>index = 1,
      codec = default_context
        \<lparr>codec_id := CODEC_ID_OTHER 1, codec_type := AVMEDIA_TYPE_AUDIO, bit_rate := 128000,
         ctx_channels := 2, ctx_sample_rate := 44100, channel_layout := 3,
         sample_fmt := AV_SAMPLE_FMT_S16, time_base := \<lparr>num = 1, den = 90000\<rparr>,
         frame_size := 2\<rparr>,
      st_time_base = \<lparr>num = 1, den = 90000\<rparr>\<rparr>"

definition writer1 :: FFmpegWriter where
  "writer1 =
     writer0
       \<lparr>info := info0\<lparr>width := 2, height := 1\<rparr>,
        oc := \<lparr>streams = [video_stream0, audio_stream1]\<rparr>,
        audio_st := Some 1, video_st := Some 0,
        samples := [0, 0, 0, 0, 0, 0, 0, 0],
        audio_outbuf := [0, 0, 0, 0, 0, 0, 0, 0], audio_outbuf_size := 8,
        audio_input_frame_size := 4, initial_audio_input_frame_size := 4,
        converted_audio := [0, 0, 0, 0, 0, 0, 0, 0]\<rparr>"

text \<open>A frame with a picture of one pixel and \<open>n\<close> samples for each of two channels.
  The samples count up in steps of \<open>1/32768\<close>, so that they can be told apart.\<close>

definition frame0 :: "int \<Rightarrow> int \<Rightarrow> Frame" where
  "frame0 k n =
     \<lparr>number = k, frame_width = 1, frame_height = 1, pixels = [(255, 128, 0)],
      audio_samples_count = n, audio_channels_count = 2,
      interleaved_audio_samples =
        (\<lambda>rate cnt. (map (\<lambda>j. (of_int k * 100 + of_nat j) / 32768) [0..<nat (2 * cnt)], cnt))\<rparr>"

text \<open>The same writer with an encoder that takes unsigned 8 bit samples, with one that
  takes signed 32 bit samples, and with audio alone.\<close>

definition writer_u8 :: FFmpegWriter where
  "writer_u8 =
     writer1\<lparr>oc := \<lparr>streams =
       [video_stream0,
        audio_stream1\<lparr>codec := (codec audio_stream1)\<lparr>sample_fmt := AV_SAMPLE_FMT_U8\<rparr>\<rparr>]\<rparr>\<rparr>"

definition writer_s32 :: FFmpegWriter where
  "writer_s32 =
     writer1\<lparr>oc := \<lparr>streams =
       [video_stream0,
        audio_stream1\<lparr>codec := (codec audio_stream1)\<lparr>sample_fmt := AV_SAMPLE_FMT_S32\<rparr>\<rparr>]\<rparr>\<rparr>"

definition writer_audio :: FFmpegWriter where
  "writer_audio =
     writer0
       \<lparr>info := info0\<lparr>has_video := False\<rparr>,
        oc := \<lparr>streams = [audio_stream1\<lparr>index := 0\<rparr>]\<rparr>,
        audio_st := Some 0,
        samples := [0, 0, 0, 0, 0, 0, 0, 0],
        audio_outbuf := [0, 0, 0, 0, 0, 0, 0, 0], audio_outbuf_size := 8,
        audio_input_frame_size := 4, initial_audio_input_frame_size := 4,
        converted_audio := [0, 0, 0, 0, 0, 0, 0, 0]\<rparr>"

section \<open>Theorems\<close>

subsection \<open>The configured writers\<close>

text \<open>The three prepared writers are what \<open>PrepareStreams\<close> returns for the small
  library, and what an encoder of unsigned 8 bit samples would make of the second
  stream.\<close>

lemma writer1_prepared:
  "PrepareStreams lib0 (writer0\<lparr>info := info0\<lparr>width := 2, height := 1\<rparr>\<rparr>) = Inr writer1"
  by code_simp

lemma writer_audio_prepared:
  "PrepareStreams lib0 (writer0\<lparr>info := info0\<lparr>has_video := False\<rparr>\<rparr>) = Inr writer_audio"
  by code_simp

lemma writer_u8_prepared:
  "PrepareStreams lib0 (writer0\<lparr>info := info0\<lparr>width := 2, height := 1, acodec := ''pcm_u8''\<rparr>,
                              fmt := (fmt writer0)\<lparr>audio_codec := CODEC_ID_OTHER 2\<rparr>\<rparr>)
     = Inr (writer_u8\<lparr>info := (info writer_u8)\<lparr>acodec := ''pcm_u8''\<rparr>,
                      fmt := (fmt writer_u8)\<lparr>audio_codec := CODEC_ID_OTHER 2\<rparr>,
                      oc := \<lparr>streams =
                        [video_stream0,
                         audio_stream1\<lparr>codec := (codec audio_stream1)
                            \<lparr>codec_id := CODEC_ID_OTHER 2, sample_fmt := AV_SAMPLE_FMT_U8\<rparr>\<rparr>]\<rparr>\<rparr>)"
  by code_simp

subsection \<open>The option store\<close>

lemma tdiv_pos: "0 \<le> a \<Longrightarrow> 0 < b \<Longrightarrow> tdiv a b = a div b"
  by (auto simp: tdiv_def sgn_if)

lemma Reduce_pos:
  assumes "0 < n" "0 < d"
  shows "Reduce \<lparr>num = n, den = d\<rparr> = \<lparr>num = n div gcd n d, den = d div gcd n d\<rparr>"
proof -
  have "0 < gcd n d" using assms by simp
  then show ?thesis using assms by (simp add: Reduce_def tdiv_pos)
qed

lemma div_gcd_pos:
  fixes n d :: int
  assumes "0 < n"
  shows "0 < n div gcd n d"
proof -
  have "0 < gcd n d" using assms by simp
  moreover have "gcd n d \<le> n" using assms by (simp add: zdvd_imp_le)
  ultimately show ?thesis by (simp add: pos_imp_zdiv_pos_iff)
qed

lemma Reduce_idem:
  assumes "0 < n" "0 < d"
  shows "Reduce (Reduce \<lparr>num = n, den = d\<rparr>) = Reduce \<lparr>num = n, den = d\<rparr>"
proof -
  have n': "0 < n div gcd n d" using assms by (simp add: div_gcd_pos)
  have d': "0 < d div gcd n d" using div_gcd_pos[of d n] assms by (simp add: gcd.commute)
  have cop: "gcd (n div gcd n d) (d div gcd n d) = 1"
    using assms by (simp add: div_gcd_coprime coprime_iff_gcd_eq_1[symmetric])
  show ?thesis
    using assms n' d' cop by (simp add: Reduce_pos)
qed

lemma SetVideoOptions_display_ratio_eq:
  assumes "SetVideoOptions av w has_video_p codec_p fps_p width_p height_p pixel_ratio_p
             interlaced_p top_field_first_p bit_rate_p = Inr w'"
  shows "display_ratio (info w') =
           Reduce \<lparr>num = width (info w') * num (pixel_ratio (info w')),
                   den = height (info w') * den (pixel_ratio (info w'))\<rparr>"
  using assms
  by (auto simp: SetVideoOptions_def Let_def chk_def split: if_splits option.splits sum.splits)

lemma SetVideoOptions_supplied:
  assumes "SetVideoOptions av w has_video_p codec_p fps_p width_p height_p pixel_ratio_p
             interlaced_p top_field_first_p bit_rate_p = Inr w'"
    and "1 \<le> width_p" "1 \<le> height_p" "0 < num pixel_ratio_p"
  shows "width (info w') = width_p" "height (info w') = height_p"
    "pixel_ratio (info w') = \<lparr>num = num pixel_ratio_p, den = den pixel_ratio_p\<rparr>"
  using assms
  by (auto simp: SetVideoOptions_def Let_def chk_def split: if_splits option.splits sum.splits)

text \<open>
  C5: for a width and a height of at least 1 and a pixel aspect ratio with positive
  numerator and denominator, the display aspect ratio that \<open>SetVideoOptions\<close> stores
  is the quotient of \<open>width * pixel_ratio.num\<close> and \<open>height * pixel_ratio.den\<close> by their
  greatest common divisor: numerator and denominator are coprime, the denominator is
  positive, the value of the fraction is the same, and reducing it again changes
  nothing.
\<close>

theorem SetVideoOptions_display_ratio_reduced:
  assumes "SetVideoOptions av w has_video_p codec_p fps_p width_p height_p pixel_ratio_p
             interlaced_p top_field_first_p bit_rate_p = Inr w'"
    and "1 \<le> width_p" and "1 \<le> height_p"
    and "0 < num pixel_ratio_p" and "0 < den pixel_ratio_p"
  shows "display_ratio (info w') =
           \<lparr>num = (width_p * num pixel_ratio_p)
                    div gcd (width_p * num pixel_ratio_p) (height_p * den pixel_ratio_p),
            den = (height_p * den pixel_ratio_p)
                    div gcd (width_p * num pixel_ratio_p) (height_p * den pixel_ratio_p)\<rparr>
         \<and> coprime (num (display_ratio (info w'))) (den (display_ratio (info w')))
         \<and> 0 < den (display_ratio (info w'))
         \<and> num (display_ratio (info w')) * (height_p * den pixel_ratio_p)
             = den (display_ratio (info w')) * (width_p * num pixel_ratio_p)
         \<and> Reduce (display_ratio (info w')) = display_ratio (info w')"
proof -
  let ?n = "width_p * num pixel_ratio_p" and ?d = "height_p * den pixel_ratio_p"
  have n: "0 < ?n" and d: "0 < ?d" using assms(2-5) by simp_all
  have eq: "display_ratio (info w') = Reduce \<lparr>num = ?n, den = ?d\<rparr>"
    using SetVideoOptions_display_ratio_eq[OF assms(1)] SetVideoOptions_supplied[OF assms(1-4)]
    by simp
  have form: "display_ratio (info w') = \<lparr>num = ?n div gcd ?n ?d, den = ?d div gcd ?n ?d\<rparr>"
    using eq Reduce_pos[OF n d] by simp
  have cop: "coprime (?n div gcd ?n ?d) (?d div gcd ?n ?d)"
  proof (rule div_gcd_coprime)
    show "?n \<noteq> 0 \<or> ?d \<noteq> 0" using n by linarith
  qed
  have dpos: "0 < ?d div gcd ?n ?d"
    using div_gcd_pos[OF d, of ?n] by (simp add: gcd.commute)
  have cross: "(?n div gcd ?n ?d) * ?d = (?d div gcd ?n ?d) * ?n"
  proof -
    have "(?n div gcd ?n ?d) * ?d = (?n div gcd ?n ?d) * (gcd ?n ?d * (?d div gcd ?n ?d))"
      by simp
    also have "\<dots> = ((?n div gcd ?n ?d) * gcd ?n ?d) * (?d div gcd ?n ?d)"
      by (simp only: mult.assoc)
    also have "\<dots> = ?n * (?d div gcd ?n ?d)" by simp
    finally show ?thesis by (simp only: mult.commute)
  qed
  have idem: "Reduce (display_ratio (info w')) = display_ratio (info w')"
    using Reduce_idem[OF n d] eq by simp
  show ?thesis
    using form cop dpos cross idem by simp
qed

theorem SetVideoOptions_display_ratio_reduced_witness:
  "SetVideoOptions lib0 writer0 True [] \<lparr>num = 0, den = 0\<rparr> 1280 720 \<lparr>num = 1, den = 1\<rparr>
       False False 0
     = Inr (writer0\<lparr>info := info0\<lparr>width := 1280, height := 720,
              interlaced_frame := False, top_field_first := False,
              display_ratio := \<lparr>num = 16, den = 9\<rparr>\<rparr>\<rparr>)
   \<and> coprime (16 :: int) 9
   \<and> Reduce \<lparr>num = 16, den = 9\<rparr> = \<lparr>num = 16, den = 9\<rparr>"
proof -
  have h: "SetVideoOptions lib0 writer0 True [] \<lparr>num = 0, den = 0\<rparr> 1280 720 \<lparr>num = 1, den = 1\<rparr>
       False False 0
     = Inr (writer0\<lparr>info := info0\<lparr>width := 1280, height := 720,
              interlaced_frame := False, top_field_first := False,
              display_ratio := \<lparr>num = 16, den = 9\<rparr>\<rparr>\<rparr>)"
    by code_simp
  show ?thesis
    using h SetVideoOptions_display_ratio_reduced[OF h] by simp
qed

text \<open>
  C4, as the code has it: a call of \<open>SetVideoOptions\<close> that supplies only a width (no
  codec name, no frame rate, no height, no pixel aspect ratio, a bit rate below 1000)
  stores the width and the display aspect ratio computed from it, and assigns the two
  interlace flags and the enabled flag from its arguments. Nothing else in the writer
  changes: the frame rate, the time base, the height, the pixel aspect ratio, the bit
  rate, the codec and every audio field keep their values.
\<close>

theorem SetVideoOptions_width_only:
  assumes "codec_p = []" and "num fps_p \<le> 0" and "1 \<le> width_p" and "height_p < 1"
    and "num pixel_ratio_p \<le> 0" and "bit_rate_p < 1000"
    and "in_int (width_p * num (pixel_ratio (info w)))"
    and "in_int (height (info w) * den (pixel_ratio (info w)))"
  shows "SetVideoOptions av w has_video_p codec_p fps_p width_p height_p pixel_ratio_p
           interlaced_p top_field_first_p bit_rate_p
         = Inr (w\<lparr>info := (info w)\<lparr>width := width_p,
                    interlaced_frame := interlaced_p, top_field_first := top_field_first_p,
                    display_ratio := Reduce \<lparr>num = width_p * num (pixel_ratio (info w)),
                                             den = height (info w) * den (pixel_ratio (info w))\<rparr>,
                    has_video := has_video_p\<rparr>\<rparr>)"
  using assms
  by (simp add: SetVideoOptions_def Let_def chk_def)

theorem SetVideoOptions_width_only_witness:
  "SetVideoOptions lib0 writer0 True [] \<lparr>num = 0, den = 1\<rparr> 320 0 \<lparr>num = 0, den = 1\<rparr> True True 0
     = Inr (writer0\<lparr>info := info0\<lparr>width := 320, display_ratio := \<lparr>num = 2, den = 3\<rparr>\<rparr>\<rparr>)"
proof -
  have "in_int (320 * num (pixel_ratio (info writer0)))"
    and "in_int (height (info writer0) * den (pixel_ratio (info writer0)))"
    by code_simp+
  from SetVideoOptions_width_only[of "[]" "\<lparr>num = 0, den = 1\<rparr>" 320 0 "\<lparr>num = 0, den = 1\<rparr>" 0
      writer0 lib0 True True True, OF _ _ _ _ _ _ this]
  show ?thesis
    by (simp add: writer0_def info0_def Reduce_def tdiv_def) code_simp
qed

text \<open>The claim as the specification words it fails: the two interlace flags and the
  enabled flag were set, the call supplies only a width, and all three are lost.\<close>

theorem SetVideoOptions_width_only_counterexample:
  "SetVideoOptions lib0 writer0 False [] \<lparr>num = 0, den = 1\<rparr> 320 0 \<lparr>num = 0, den = 1\<rparr>
       False False 0
     = Inr (writer0\<lparr>info := info0\<lparr>width := 320, interlaced_frame := False,
              top_field_first := False, display_ratio := \<lparr>num = 2, den = 3\<rparr>,
              has_video := False\<rparr>\<rparr>)
   \<and> interlaced_frame (info writer0) \<noteq> False
   \<and> top_field_first (info writer0) \<noteq> False
   \<and> has_video (info writer0) \<noteq> False"
  by code_simp

subsection \<open>The audio options\<close>

text \<open>
  C10, as the code has it: \<open>SetAudioOptions\<close> throws \<open>InvalidCodec\<close>, and changes
  nothing, when it is given a codec name that the library does not know. Every other
  call returns: it stores the name and the id of a codec that was named, keeps the
  stored sample rate when the rate it is given is below 8000, the stored channel
  count when the count it is given is below 1, and the stored bit rate when the rate
  it is given is below 1000, stores a value at or above its threshold, and assigns
  the enabled flag. Nothing else in the writer changes.
\<close>

theorem SetAudioOptions_thresholds:
  "SetAudioOptions av w has_audio_p codec_p sample_rate_p channels_p bit_rate_p =
     (case (if codec_p = [] then Some w
            else (case avcodec_find_encoder_by_name av codec_p of
                    None \<Rightarrow> None
                  | Some new_codec \<Rightarrow>
                      Some (w\<lparr>info := (info w)\<lparr>acodec := codec_name new_codec\<rparr>,
                              fmt := (fmt w)\<lparr>audio_codec := codec_ident new_codec\<rparr>\<rparr>))) of
        None \<Rightarrow> Inl InvalidCodec
      | Some w1 \<Rightarrow>
          Inr (w1\<lparr>info := (info w1)
                 \<lparr>sample_rate := (if sample_rate_p < 8000 then sample_rate (info w)
                                  else sample_rate_p),
                  channels := (if channels_p < 1 then channels (info w) else channels_p),
                  audio_bit_rate := (if bit_rate_p < 1000 then audio_bit_rate (info w)
                                     else bit_rate_p),
                  has_audio := has_audio_p\<rparr>\<rparr>))"
  by (auto simp: SetAudioOptions_def Let_def split: option.splits
      intro!: FFmpegWriter.equality WriterInfo.equality)

theorem SetAudioOptions_thresholds_witness:
  "SetAudioOptions lib0 writer0 False [] 7999 0 999
     = Inr (writer0\<lparr>info := info0\<lparr>has_audio := False\<rparr>\<rparr>)
   \<and> SetAudioOptions lib0 writer0 False ''pcm_s16le'' 8000 1 1000
     = Inr (writer0\<lparr>info := info0\<lparr>acodec := ''pcm_s16le'', sample_rate := 8000, channels := 1,
                                    audio_bit_rate := 1000, has_audio := False\<rparr>,
                     fmt := (fmt writer0)\<lparr>audio_codec := CODEC_ID_PCM_S16LE\<rparr>\<rparr>)
   \<and> SetAudioOptions lib0 writer0 False ''nope'' 8000 1 1000 = Inl InvalidCodec"
proof -
  have f: "avcodec_find_encoder_by_name lib0 [] = None"
    "avcodec_find_encoder_by_name lib0 ''pcm_s16le'' = Some pcm_encoder"
    "avcodec_find_encoder_by_name lib0 ''nope'' = None"
    by (simp_all add: lib0_def)
  from SetAudioOptions_thresholds[of lib0 writer0 False "[]" 7999 0 999]
    SetAudioOptions_thresholds[of lib0 writer0 False "''pcm_s16le''" 8000 1 1000]
    SetAudioOptions_thresholds[of lib0 writer0 False "''nope''" 8000 1 1000] f
  show ?thesis
    by (simp add: writer0_def info0_def pcm_encoder_def)
qed

text \<open>The claim as the specification words it fails: audio is enabled, a call that
  would disable it names an encoder that the library does not have, and the call
  throws before the flag is assigned.\<close>

theorem SetAudioOptions_thresholds_counterexample:
  "SetAudioOptions lib0 writer0 False ''nope'' 0 0 0 = Inl InvalidCodec
   \<and> SetAudioOptions lib0 writer0 False ''nope'' 0 0 0
       \<noteq> Inr (writer0\<lparr>info := info0\<lparr>has_audio := False\<rparr>\<rparr>)
   \<and> has_audio (info writer0) \<noteq> False"
  by code_simp

subsection \<open>Named options\<close>

text \<open>
  C3, as the code has it: when the media kind of the stream is not enabled and the
  name is none of \<open>g\<close>, \<open>qmin\<close>, \<open>qmax\<close>, \<open>max_b_frames\<close> and \<open>mb_decision\<close>, \<open>SetOption\<close>
  throws \<open>InvalidOptions\<close>; the writer is as it was, and the call is not silent.
\<close>

theorem SetOption_disabled_stream:
  assumes "\<not> (has_video (info w) \<and> stream = VIDEO_STREAM)"
    and "\<not> (has_audio (info w) \<and> stream = AUDIO_STREAM)"
    and "\<not> well_known_option nm"
  shows "SetOption av w stream nm val = Inl InvalidOptions"
  using assms by (auto simp: SetOption_def)

theorem SetOption_disabled_stream_witness:
  "SetOption lib0 (writer0\<lparr>info := info0\<lparr>has_video := False\<rparr>\<rparr>) VIDEO_STREAM ''crf'' ''23''
     = Inl InvalidOptions"
proof -
  have "\<not> (has_video (info (writer0\<lparr>info := info0\<lparr>has_video := False\<rparr>\<rparr>)) \<and> VIDEO_STREAM = VIDEO_STREAM)"
    and "\<not> (has_audio (info (writer0\<lparr>info := info0\<lparr>has_video := False\<rparr>\<rparr>)) \<and> VIDEO_STREAM = AUDIO_STREAM)"
    and "\<not> well_known_option ''crf''"
    by (simp_all add: well_known_option_def)
  from SetOption_disabled_stream[OF this] show ?thesis .
qed

text \<open>The claim as the specification words it fails: audio is not enabled, an option
  of the audio stream is set, and the call ends in an error.\<close>

theorem SetOption_disabled_stream_counterexample:
  "\<not> has_audio (info (writer0\<lparr>info := info0\<lparr>has_audio := False\<rparr>\<rparr>))
   \<and> SetOption lib0 (writer0\<lparr>info := info0\<lparr>has_audio := False\<rparr>\<rparr>) AUDIO_STREAM ''profile'' ''1''
       = Inl InvalidOptions
   \<and> SetOption lib0 (writer0\<lparr>info := info0\<lparr>has_audio := False\<rparr>\<rparr>) AUDIO_STREAM ''profile'' ''1''
       \<noteq> Inr (writer0\<lparr>info := info0\<lparr>has_audio := False\<rparr>\<rparr>)"
  by code_simp

text \<open>For the five names of the writer's own the codec context is used without a
  test, and it is null.\<close>

lemma SetOption_null_context:
  assumes "\<not> (has_video (info w) \<and> stream = VIDEO_STREAM)"
    and "\<not> (has_audio (info w) \<and> stream = AUDIO_STREAM)"
    and "well_known_option nm"
  shows "SetOption av w stream nm val = Inl (Undefined NullDereference)"
  using assms by (auto simp: SetOption_def)

subsection \<open>The sample rate of the audio stream\<close>

lemma scan_array_iff: "scan_array v xs \<longleftrightarrow> v \<in> set (takeWhile (\<lambda>x. x \<noteq> 0) xs)"
  by (induction xs) auto

lemma avformat_new_stream_Some:
  assumes "avformat_new_stream av ctx cdc = Some (st, ctx1)"
  shows "st = length (streams ctx)" and "length (streams ctx1) = Suc (length (streams ctx))"
    and "take (length (streams ctx)) (streams ctx1) = streams ctx"
  using assms by (auto simp: avformat_new_stream_def split: option.splits)

lemma streams_set_stream_codec:
  "i < length (streams (oc w)) \<Longrightarrow>
     codec (streams (oc (set_stream_codec w i c)) ! i) = c"
  "length (streams (oc (set_stream_codec w i c))) = length (streams (oc w))"
  by (simp_all add: set_stream_codec_def)

lemma set_valid_sample_rate_Inr:
  "set_valid_sample_rate cdc wi c = Inr c' \<Longrightarrow> ctx_sample_rate c' = sample_rate wi"
  by (auto simp: set_valid_sample_rate_def split: option.splits if_splits)

lemma set_valid_channel_layout_Inr:
  "set_valid_channel_layout cdc wi c = Inr c' \<Longrightarrow> ctx_sample_rate c' = ctx_sample_rate c"
  by (auto simp: set_valid_channel_layout_def Let_def split: option.splits if_splits)

lemma ctx_sample_rate_choose_sample_fmt [simp]:
  "ctx_sample_rate (choose_sample_fmt cdc c) = ctx_sample_rate c"
  by (simp add: choose_sample_fmt_def Let_def split: option.splits list.splits)

lemma ctx_sample_rate_global_header [simp]:
  "ctx_sample_rate (global_header f c) = ctx_sample_rate c"
  by (simp add: global_header_def)

lemma add_audio_stream_Inr:
  assumes "add_audio_stream av w = Inr (st, w')"
  shows "st = length (streams (oc w))"
    and "length (streams (oc w')) = Suc (length (streams (oc w)))"
    and "ctx_sample_rate (codec (streams (oc w') ! st)) = sample_rate (info w)"
proof -
  from assms obtain cdc oc1 where
    f: "avcodec_find_encoder_by_name av (acodec (info w)) = Some cdc"
    and n: "avformat_new_stream av (oc w) cdc = Some (st, oc1)"
    by (auto simp: add_audio_stream_def Let_def split: option.splits sum.splits)
  note ns = avformat_new_stream_Some[OF n]
  show "st = length (streams (oc w))" by (rule ns(1))
  have lt: "st < length (streams (oc (w\<lparr>oc := oc1\<rparr>)))" using ns by simp
  from assms f n obtain c where w': "w' = set_stream_codec (w\<lparr>oc := oc1\<rparr>) st c"
    and c: "ctx_sample_rate c = sample_rate (info w)"
    by (auto simp: add_audio_stream_def Let_def split: sum.splits
        dest!: set_valid_sample_rate_Inr set_valid_channel_layout_Inr)
  show "length (streams (oc w')) = Suc (length (streams (oc w)))"
    using w' ns by (simp add: streams_set_stream_codec)
  show "ctx_sample_rate (codec (streams (oc w') ! st)) = sample_rate (info w)"
    using w' c streams_set_stream_codec(1)[OF lt] by simp
qed

text \<open>
  C2: when the encoder is found, the stream is allocated and the encoder has a list of
  supported sample rates, a requested rate that is not among the entries before the
  terminator makes \<open>add_audio_stream\<close> throw \<open>InvalidSampleRate\<close> (the
  \<open>UnsupportedSampleRate\<close> of the specification). Whenever \<open>add_audio_stream\<close> returns a
  stream, with or without such a list, the sample rate in its codec context is the
  requested one, so no other rate is ever put in its place.
\<close>

theorem add_audio_stream_sample_rate:
  "(avcodec_find_encoder_by_name av (acodec (info w)) = Some cdc
      \<and> new_stream av (streams (oc w)) cdc \<noteq> None
      \<and> supported_samplerates cdc = Some rates
      \<and> sample_rate (info w) \<notin> set (takeWhile (\<lambda>x. x \<noteq> 0) rates)
    \<longrightarrow> add_audio_stream av w = Inl InvalidSampleRate)
   \<and> (add_audio_stream av w = Inr (st, w')
    \<longrightarrow> ctx_sample_rate (codec (streams (oc w') ! st)) = sample_rate (info w))"
proof (intro conjI impI)
  assume "avcodec_find_encoder_by_name av (acodec (info w)) = Some cdc
      \<and> new_stream av (streams (oc w)) cdc \<noteq> None
      \<and> supported_samplerates cdc = Some rates
      \<and> sample_rate (info w) \<notin> set (takeWhile (\<lambda>x. x \<noteq> 0) rates)"
  then show "add_audio_stream av w = Inl InvalidSampleRate"
    by (auto simp: add_audio_stream_def avformat_new_stream_def Let_def scan_array_iff
        set_valid_sample_rate_def split: option.splits)
next
  assume "add_audio_stream av w = Inr (st, w')"
  then show "ctx_sample_rate (codec (streams (oc w') ! st)) = sample_rate (info w)"
    by (rule add_audio_stream_Inr(3))
qed

theorem add_audio_stream_sample_rate_witness:
  "add_audio_stream lib0 (writer0\<lparr>info := info0\<lparr>sample_rate := 8000\<rparr>\<rparr>) = Inl InvalidSampleRate
   \<and> (\<exists>w'. add_audio_stream lib0 (writer0\<lparr>info := info0\<lparr>acodec := ''pcm_s16le'', sample_rate := 8000\<rparr>\<rparr>)
              = Inr (0, w')
          \<and> ctx_sample_rate (codec (streams (oc w') ! 0)) = 8000)"
proof -
  let ?w1 = "writer0\<lparr>info := info0\<lparr>sample_rate := 8000\<rparr>\<rparr>"
  let ?w2 = "writer0\<lparr>info := info0\<lparr>acodec := ''pcm_s16le'', sample_rate := 8000\<rparr>\<rparr>"
  have h1: "avcodec_find_encoder_by_name lib0 (acodec (info ?w1)) = Some aac_encoder
      \<and> new_stream lib0 (streams (oc ?w1)) aac_encoder \<noteq> None
      \<and> supported_samplerates aac_encoder = Some [48000, 44100, 0]
      \<and> sample_rate (info ?w1) \<notin> set (takeWhile (\<lambda>x. x \<noteq> 0) [48000, 44100, 0])"
    by (simp add: lib0_def writer0_def info0_def aac_encoder_def)
  obtain w' where h2: "add_audio_stream lib0 ?w2 = Inr (0, w')"
    by (simp add: add_audio_stream_def avformat_new_stream_def Let_def lib0_def writer0_def
        info0_def pcm_encoder_def set_valid_sample_rate_def set_valid_channel_layout_def)
  from add_audio_stream_sample_rate[of lib0 ?w1 aac_encoder "[48000, 44100, 0]" 0 w']
    add_audio_stream_sample_rate[of lib0 ?w2 aac_encoder "[48000, 44100, 0]" 0 w']
    h1 h2
  show ?thesis by (simp add: info0_def)
qed

subsection \<open>What the audio path changes\<close>

lemma audio_packet_key: "AV_PKT_FLAG_KEY \<in> pkt_flags (audio_packet enc si)"
  by (simp add: audio_packet_def Let_def split: option.splits)

lemma audio_packet_index: "stream_index (audio_packet enc si) = si"
  by (simp add: audio_packet_def Let_def split: option.splits)

lemma audio_path_effect_refl: "audio_path_effect si w w"
  by (simp add: audio_path_effect_def)

lemma write_audio_loop_effect:
  assumes "write_audio_loop av c si fn fs w pos rem = Some (Inr w')"
  shows "audio_path_effect si w w'
         \<and> audio_input_frame_size w' = audio_input_frame_size w
         \<and> converted_audio w' = converted_audio w \<and> resampler w' = resampler w"
proof -
  note r = write_audio_loop.raw_induct
      [where P = "\<lambda>av c si fn fs w pos rem y. \<forall>w'. y = Inr w' \<longrightarrow>
         audio_path_effect si w w'
         \<and> audio_input_frame_size w' = audio_input_frame_size w
         \<and> converted_audio w' = converted_audio w \<and> resampler w' = resampler w",
       OF _ assms]
  have "\<forall>w''. (Inr w' :: error + FFmpegWriter) = Inr w'' \<longrightarrow>
         audio_path_effect si w w''
         \<and> audio_input_frame_size w'' = audio_input_frame_size w
         \<and> converted_audio w'' = converted_audio w \<and> resampler w'' = resampler w"
  proof (rule r, goal_cases)
    case (1 loop av c si fn fs w pos rem y)
    show ?case
    proof (intro allI impI)
      fix w' assume y: "y = Inr w'"
      show "audio_path_effect si w w'
         \<and> audio_input_frame_size w' = audio_input_frame_size w
         \<and> converted_audio w' = converted_audio w \<and> resampler w' = resampler w"
      proof (cases "0 < rem")
        case False
        with 1(2) y show ?thesis by (simp add: audio_path_effect_refl)
      next
        case True
        from 1(2) True y obtain rps s1 where
          rps: "chk (audio_input_frame_size w - audio_input_position w) = Inr rps"
          and s1: "memcpy (samples w) (audio_input_position w) fs pos (samples_needed rem rps) = Inr s1"
          by (auto simp: Let_def split: sum.splits if_splits)
        let ?d = "samples_needed rem rps"
        let ?w1 = "w\<lparr>samples := s1, audio_input_position := audio_input_position w + ?d\<rparr>"
        show ?thesis
        proof (cases "audio_input_position w + ?d < audio_input_frame_size w")
          case True
          with 1(2) \<open>0 < rem\<close> y rps s1 have "w' = ?w1" by (simp add: Let_def)
          then show ?thesis by (simp add: audio_path_effect_def)
        next
          case False
          let ?chunk = "take (nat (audio_input_frame_size w)) s1"
          let ?enc = "avcodec_encode_audio av (audio_encoded w) c ?chunk"
          let ?pkt = "audio_packet ?enc si"
          let ?w3 = "w\<lparr>samples := s1, audio_input_position := audio_input_position w + ?d,
              audio_outbuf := enc_bytes ?enc, audio_encoded := audio_encoded w @ [?chunk],
              written := written w @ [?pkt], audio_input_position := 0\<rparr>"
          from 1(2) \<open>0 < rem\<close> y rps s1 False
          have rec: "loop av c si fn fs ?w3 (pos + ?d) (rem - ?d) = Some (Inr w')"
            by (simp add: Let_def split: if_splits)
          from 1(1)[OF rec] have "audio_path_effect si ?w3 w'
             \<and> audio_input_frame_size w' = audio_input_frame_size ?w3
             \<and> converted_audio w' = converted_audio ?w3 \<and> resampler w' = resampler ?w3" by simp
          then show ?thesis
            by (auto simp: audio_path_effect_def audio_packet_key audio_packet_index)
        qed
      qed
    qed
  qed
  then show ?thesis by blast
qed

lemma frame_samples_for_encoder_effect:
  assumes "frame_samples_for_encoder av w c frame = Inr (w1, fs, n)"
  shows "audio_path_effect si w w1 \<and> samples w1 = samples w
         \<and> audio_input_position w1 = audio_input_position w
         \<and> audio_encoded w1 = audio_encoded w \<and> written w1 = written w"
  using assms
  by (auto simp: frame_samples_for_encoder_def Let_def audio_path_effect_def
      split: prod.splits if_splits sum.splits)

lemma audio_path_effect_trans:
  "audio_path_effect si w w1 \<Longrightarrow> audio_path_effect si w1 w2 \<Longrightarrow> audio_path_effect si w w2"
  by (auto simp: audio_path_effect_def)

lemma deref_Inr:
  "deref w p = Inr (i, st) \<Longrightarrow> p = Some i \<and> i < length (streams (oc w)) \<and> st = streams (oc w) ! i"
  by (auto simp: deref_def split: option.splits if_splits)

lemma write_audio_packet_Inr:
  assumes "write_audio_packet av w frame = Some (Inr w')"
  obtains i st w1 fs n where "deref w (audio_st w) = Inr (i, st)"
    and "frame_samples_for_encoder av (w\<lparr>resampler := True\<rparr>) (codec st) frame = Inr (w1, fs, n)"
    and "write_audio_loop av (codec st) (index st) (number frame) fs w1 0 n = Some (Inr w')"
  using assms
  by (auto simp: write_audio_packet_def split: sum.splits prod.splits)

lemma write_audio_packet_effect:
  assumes "write_audio_packet av w frame = Some (Inr w')"
    and "deref w (audio_st w) = Inr (i, st)"
  shows "audio_path_effect (index st) w w'"
proof -
  from assms obtain w1 fs n where
    f: "frame_samples_for_encoder av (w\<lparr>resampler := True\<rparr>) (codec st) frame = Inr (w1, fs, n)"
    and l: "write_audio_loop av (codec st) (index st) (number frame) fs w1 0 n = Some (Inr w')"
    by (auto simp: write_audio_packet_def split: sum.splits prod.splits)
  have "audio_path_effect (index st) (w\<lparr>resampler := True\<rparr>) w1"
    using frame_samples_for_encoder_effect[OF f] by simp
  moreover have "audio_path_effect (index st) w (w\<lparr>resampler := True\<rparr>)"
    by (simp add: audio_path_effect_def)
  moreover have "audio_path_effect (index st) w1 w'"
    using write_audio_loop_effect[OF l] by simp
  ultimately show ?thesis by (blast intro: audio_path_effect_trans)
qed

subsection \<open>Key frames\<close>

lemma video_packet_key:
  "AV_PKT_FLAG_KEY \<in> pkt_flags (video_packet enc cf si) \<longleftrightarrow> key_frame cf"
  by (simp add: video_packet_def Let_def av_init_packet_def)

lemma raw_video_packet_key: "AV_PKT_FLAG_KEY \<in> pkt_flags (raw_video_packet av pic si)"
  by (simp add: raw_video_packet_def)

lemma write_video_packet_cases:
  assumes "write_video_packet av w frame = Inr w'"
  obtains i st pic where "deref w (video_st w) = Inr (i, st)"
    and "if AVFMT_RAWPICTURE \<in> flags (fmt w)
         then w' = w\<lparr>scaled := Suc (scaled w),
                     written := written w @ [raw_video_packet av pic (index st)]\<rparr>
         else (let enc = avcodec_encode_video av (video_encoded w) (codec st) pic;
                   w2 = w\<lparr>scaled := Suc (scaled w), video_encoded := video_encoded w @ [pic]\<rparr>
               in if enc_size enc > 0
                  then \<exists>cf. coded_frame enc = Some cf
                         \<and> w' = w2\<lparr>written := written w @ [video_packet enc cf (index st)]\<rparr>
                  else w' = w2)"
proof -
  from assms obtain i st pic where d: "deref w (video_st w) = Inr (i, st)"
    and p: "convert_picture av w (codec st) frame = Inr pic"
    by (auto simp: write_video_packet_def split: sum.splits)
  show thesis
  proof (rule that[OF d, of pic], cases "AVFMT_RAWPICTURE \<in> flags (fmt w)")
    case True
    with assms d p show "if AVFMT_RAWPICTURE \<in> flags (fmt w)
         then w' = w\<lparr>scaled := Suc (scaled w),
                     written := written w @ [raw_video_packet av pic (index st)]\<rparr>
         else (let enc = avcodec_encode_video av (video_encoded w) (codec st) pic;
                   w2 = w\<lparr>scaled := Suc (scaled w), video_encoded := video_encoded w @ [pic]\<rparr>
               in if enc_size enc > 0
                  then \<exists>cf. coded_frame enc = Some cf
                         \<and> w' = w2\<lparr>written := written w @ [video_packet enc cf (index st)]\<rparr>
                  else w' = w2)"
      by (simp add: write_video_packet_def Let_def split: if_splits)
  next
    case False
    with assms d p show "if AVFMT_RAWPICTURE \<in> flags (fmt w)
         then w' = w\<lparr>scaled := Suc (scaled w),
                     written := written w @ [raw_video_packet av pic (index st)]\<rparr>
         else (let enc = avcodec_encode_video av (video_encoded w) (codec st) pic;
                   w2 = w\<lparr>scaled := Suc (scaled w), video_encoded := video_encoded w @ [pic]\<rparr>
               in if enc_size enc > 0
                  then \<exists>cf. coded_frame enc = Some cf
                         \<and> w' = w2\<lparr>written := written w @ [video_packet enc cf (index st)]\<rparr>
                  else w' = w2)"
      by (auto simp: write_video_packet_def Let_def split: if_splits option.splits)
  qed
qed

text \<open>
  C7: every packet that \<open>write_audio_packet\<close> hands to the container carries the key
  frame flag. A packet of \<open>write_video_packet\<close> carries it in the raw picture mode;
  otherwise the encoder is called once, no packet is written when it reports no
  output, and the packet that is written carries the flag exactly when the coded
  frame of the encoder is a key frame.
\<close>

theorem key_frame_flags:
  "(write_audio_packet av w frame = Some (Inr w') \<longrightarrow>
      (\<exists>ps. written w' = written w @ ps \<and> (\<forall>p\<in>set ps. AV_PKT_FLAG_KEY \<in> pkt_flags p)))
   \<and> (write_video_packet av w frame = Inr w'' \<and> deref w (video_st w) = Inr (i, st) \<longrightarrow>
        (if AVFMT_RAWPICTURE \<in> flags (fmt w)
         then \<exists>p. written w'' = written w @ [p] \<and> AV_PKT_FLAG_KEY \<in> pkt_flags p
         else \<exists>pic. video_encoded w'' = video_encoded w @ [pic]
                \<and> (if enc_size (avcodec_encode_video av (video_encoded w) (codec st) pic) > 0
                    then \<exists>p cf. written w'' = written w @ [p]
                           \<and> coded_frame (avcodec_encode_video av (video_encoded w) (codec st) pic)
                               = Some cf
                           \<and> (AV_PKT_FLAG_KEY \<in> pkt_flags p \<longleftrightarrow> key_frame cf)
                    else written w'' = written w)))"
proof (intro conjI impI)
  assume a: "write_audio_packet av w frame = Some (Inr w')"
  then obtain j sa where "deref w (audio_st w) = Inr (j, sa)"
    by (rule write_audio_packet_Inr)
  from write_audio_packet_effect[OF a this]
  show "\<exists>ps. written w' = written w @ ps \<and> (\<forall>p\<in>set ps. AV_PKT_FLAG_KEY \<in> pkt_flags p)"
    by (auto simp: audio_path_effect_def)
next
  assume "write_video_packet av w frame = Inr w'' \<and> deref w (video_st w) = Inr (i, st)"
  then have v: "write_video_packet av w frame = Inr w''" and d: "deref w (video_st w) = Inr (i, st)"
    by simp_all
  from v obtain i' st' pic where d': "deref w (video_st w) = Inr (i', st')"
    and c: "if AVFMT_RAWPICTURE \<in> flags (fmt w)
         then w'' = w\<lparr>scaled := Suc (scaled w),
                     written := written w @ [raw_video_packet av pic (index st')]\<rparr>
         else (let enc = avcodec_encode_video av (video_encoded w) (codec st') pic;
                   w2 = w\<lparr>scaled := Suc (scaled w), video_encoded := video_encoded w @ [pic]\<rparr>
               in if enc_size enc > 0
                  then \<exists>cf. coded_frame enc = Some cf
                         \<and> w'' = w2\<lparr>written := written w @ [video_packet enc cf (index st')]\<rparr>
                  else w'' = w2)"
    by (rule write_video_packet_cases)
  from d d' have st: "st' = st" by simp
  show "if AVFMT_RAWPICTURE \<in> flags (fmt w)
         then \<exists>p. written w'' = written w @ [p] \<and> AV_PKT_FLAG_KEY \<in> pkt_flags p
         else \<exists>pic. video_encoded w'' = video_encoded w @ [pic]
                \<and> (if enc_size (avcodec_encode_video av (video_encoded w) (codec st) pic) > 0
                    then \<exists>p cf. written w'' = written w @ [p]
                           \<and> coded_frame (avcodec_encode_video av (video_encoded w) (codec st) pic)
                               = Some cf
                           \<and> (AV_PKT_FLAG_KEY \<in> pkt_flags p \<longleftrightarrow> key_frame cf)
                    else written w'' = written w)"
  proof (cases "AVFMT_RAWPICTURE \<in> flags (fmt w)")
    case True
    with c show ?thesis by (simp add: raw_video_packet_key)
  next
    case False
    let ?enc = "avcodec_encode_video av (video_encoded w) (codec st) pic"
    show ?thesis
    proof (cases "enc_size ?enc > 0")
      case True
      with c False st obtain cf where "coded_frame ?enc = Some cf"
        and "w'' = w\<lparr>scaled := Suc (scaled w), video_encoded := video_encoded w @ [pic],
                     written := written w @ [video_packet ?enc cf (index st)]\<rparr>"
        by (auto simp: Let_def)
      with False True show ?thesis
        by (auto simp: video_packet_key intro!: exI[of _ pic])
    next
      case no: False
      with c False st have "w'' = w\<lparr>scaled := Suc (scaled w), video_encoded := video_encoded w @ [pic]\<rparr>"
        by (auto simp: Let_def)
      with False no show ?thesis by (auto intro!: exI[of _ pic])
    qed
  qed
qed

declare write_audio_loop.simps [code]

theorem key_frame_flags_witness:
  "write_audio_packet lib0 writer1 (frame0 1 2)
     = Some (Inr (writer1\<lparr>samples := [100, 101, 102, 103, 0, 0, 0, 0], audio_outbuf := [],
                    resampler := True, audio_encoded := [[100, 101, 102, 103]],
                    written := [\<lparr>pkt_pts = None, pkt_flags = {AV_PKT_FLAG_KEY}, stream_index = 1,
                                 pkt_data = EncodedBytes [], pkt_size = 4\<rparr>]\<rparr>))
   \<and> write_video_packet lib0 writer1 (frame0 1 2)
     = Inr (writer1\<lparr>scaled := 1, video_encoded := [[0, 0, 0, 0, 0, 0]],
              written := [\<lparr>pkt_pts = None, pkt_flags = {AV_PKT_FLAG_KEY}, stream_index = 0,
                           pkt_data = EncodedBytes [0], pkt_size = 1\<rparr>]\<rparr>)
   \<and> (\<exists>ps. [\<lparr>pkt_pts = None, pkt_flags = {AV_PKT_FLAG_KEY}, stream_index = 1,
               pkt_data = EncodedBytes [], pkt_size = 4\<rparr>] = written writer1 @ ps
          \<and> (\<forall>p\<in>set ps. AV_PKT_FLAG_KEY \<in> pkt_flags p))"
proof -
  let ?wa = "writer1\<lparr>samples := [100, 101, 102, 103, 0, 0, 0, 0], audio_outbuf := [],
                    resampler := True, audio_encoded := [[100, 101, 102, 103]],
                    written := [\<lparr>pkt_pts = None, pkt_flags = {AV_PKT_FLAG_KEY}, stream_index = 1,
                                 pkt_data = EncodedBytes [], pkt_size = 4\<rparr>]\<rparr>"
  let ?wv = "writer1\<lparr>scaled := 1, video_encoded := [[0, 0, 0, 0, 0, 0]],
              written := [\<lparr>pkt_pts = None, pkt_flags = {AV_PKT_FLAG_KEY}, stream_index = 0,
                           pkt_data = EncodedBytes [0], pkt_size = 1\<rparr>]\<rparr>"
  have a: "write_audio_packet lib0 writer1 (frame0 1 2) = Some (Inr ?wa)"
    by code_simp
  have v: "write_video_packet lib0 writer1 (frame0 1 2) = Inr ?wv"
    by code_simp
  have d: "deref writer1 (video_st writer1) = Inr (0, video_stream0)"
    by code_simp
  from key_frame_flags[of lib0 writer1 "frame0 1 2" ?wa ?wv 0 video_stream0] a v d
  show ?thesis by simp
qed

subsection \<open>A writer with audio only\<close>

lemma add_audio_stream_keeps:
  assumes "add_audio_stream av w = Inr (st, w')"
  shows "info w' = info w" "fmt w' = fmt w" "video_st w' = video_st w" "audio_st w' = audio_st w"
  using assms
  by (auto simp: add_audio_stream_def Let_def set_stream_codec_def split: option.splits sum.splits)

lemma initialize_streams_audio_only:
  assumes "\<not> has_video (info w)" and "initialize_streams av w = Inr w'"
  shows "video_st w' = None" and "info w' = info w" and "fmt w' = fmt w"
    and "if audio_codec (fmt w) \<noteq> CODEC_ID_NONE \<and> has_audio (info w)
         then length (streams (oc w')) = Suc (length (streams (oc w)))
              \<and> audio_st w' = Some (length (streams (oc w)))
         else oc w' = oc w \<and> audio_st w' = None"
proof -
  let ?w0 = "w\<lparr>video_st := None, audio_st := None\<rparr>"
  show "video_st w' = None" "info w' = info w" "fmt w' = fmt w"
    using assms
    by (auto simp: initialize_streams_def Let_def split: if_splits sum.splits
        dest: add_audio_stream_keeps)
  show "if audio_codec (fmt w) \<noteq> CODEC_ID_NONE \<and> has_audio (info w)
         then length (streams (oc w')) = Suc (length (streams (oc w)))
              \<and> audio_st w' = Some (length (streams (oc w)))
         else oc w' = oc w \<and> audio_st w' = None"
  proof (cases "audio_codec (fmt w) \<noteq> CODEC_ID_NONE \<and> has_audio (info w)")
    case True
    with assms obtain st w3 where a: "add_audio_stream av ?w0 = Inr (st, w3)"
      and w': "w' = w3\<lparr>audio_st := Some st\<rparr>"
      by (auto simp: initialize_streams_def Let_def split: sum.splits)
    from add_audio_stream_Inr(1,2)[OF a] w' True show ?thesis by simp
  next
    case False
    with assms show ?thesis
      by (auto simp: initialize_streams_def Let_def split: if_splits)
  qed
qed

lemma open_audio_keeps:
  assumes "open_audio av w p = Inr w'"
  shows "info w' = info w" "fmt w' = fmt w" "video_st w' = video_st w" "audio_st w' = audio_st w"
    "length (streams (oc w')) = length (streams (oc w))"
  using assms
  by (auto simp: open_audio_def Let_def set_stream_codec_def
      split: sum.splits option.splits if_splits)

lemma write_audio_packet_keeps:
  assumes "write_audio_packet av w frame = Some (Inr w')"
  shows "info w' = info w" "video_st w' = video_st w" "audio_st w' = audio_st w"
    "scaled w' = scaled w" "video_encoded w' = video_encoded w" "oc w' = oc w"
    "initial_audio_input_frame_size w' = initial_audio_input_frame_size w"
proof -
  from assms obtain i st where "deref w (audio_st w) = Inr (i, st)"
    by (rule write_audio_packet_Inr)
  from write_audio_packet_effect[OF assms this]
  show "info w' = info w" "video_st w' = video_st w" "audio_st w' = audio_st w"
    "scaled w' = scaled w" "video_encoded w' = video_encoded w" "oc w' = oc w"
    "initial_audio_input_frame_size w' = initial_audio_input_frame_size w"
    by (simp_all add: audio_path_effect_def)
qed

lemma WriteFrame_no_video:
  assumes "\<not> has_video (info w) \<or> video_st w = None"
  shows "WriteFrame av w frame =
           (if has_audio (info w) \<and> audio_st w \<noteq> None then write_audio_packet av w frame
            else Some (Inr w))"
  using assms by (auto simp: WriteFrame_def)

lemma WriteFrames_no_video:
  assumes "\<not> has_video (info w) \<or> video_st w = None"
  shows "WriteFrames av w frames =
           (if has_audio (info w) \<and> audio_st w \<noteq> None then write_audio_packets av w frames
            else Some (Inr w))"
  using assms
proof (induction frames arbitrary: w)
  case Nil
  then show ?case by simp
next
  case (Cons frame frames)
  note nv = Cons.prems
  show ?case
  proof (cases "has_audio (info w) \<and> audio_st w \<noteq> None")
    case False
    then have "WriteFrame av w frame = Some (Inr w)"
      using nv by (auto simp: WriteFrame_no_video)
    with Cons.IH[OF nv] False show ?thesis by auto
  next
    case True
    show ?thesis
    proof (cases "write_audio_packet av w frame")
      case None
      with True nv show ?thesis by (simp add: WriteFrame_no_video)
    next
      case (Some r)
      show ?thesis
      proof (cases r)
        case (Inl e)
        with Some True nv show ?thesis by (simp add: WriteFrame_no_video)
      next
        case (Inr w1)
        with Some have k: "write_audio_packet av w frame = Some (Inr w1)" by simp
        note keeps = write_audio_packet_keeps[OF k]
        have "\<not> has_video (info w1) \<or> video_st w1 = None" using nv keeps by simp
        from Cons.IH[OF this] k True nv keeps show ?thesis
          by (simp add: WriteFrame_no_video)
      qed
    qed
  qed
qed

lemma write_audio_packets_keeps:
  assumes "write_audio_packets av w frames = Some (Inr w')"
  shows "scaled w' = scaled w \<and> video_encoded w' = video_encoded w \<and> video_st w' = video_st w"
  using assms
proof (induction frames arbitrary: w)
  case Nil
  then show ?case by simp
next
  case (Cons frame frames)
  from Cons.prems obtain w1 where k: "write_audio_packet av w frame = Some (Inr w1)"
    and r: "write_audio_packets av w1 frames = Some (Inr w')"
    by (auto split: option.splits sum.splits)
  from Cons.IH[OF r] write_audio_packet_keeps[OF k] show ?case by simp
qed

text \<open>
  C6, as the code has it: with audio enabled and video disabled, a \<open>PrepareStreams\<close>
  that returns leaves \<open>video_st\<close> null; it has added exactly one stream, the audio
  stream, when the container has an audio codec, and no stream at all when it has
  none. Whatever frames are written afterwards, \<open>WriteFrame\<close> is the audio path alone:
  the pixel converter is not called and the video encoder is given nothing.
\<close>

theorem PrepareStreams_audio_only:
  assumes "has_audio (info w)" and "\<not> has_video (info w)" and "PrepareStreams av w = Inr w'"
  shows "video_st w' = None
       \<and> (if audio_codec (fmt w) \<noteq> CODEC_ID_NONE
          then length (streams (oc w')) = Suc (length (streams (oc w)))
               \<and> audio_st w' = Some (length (streams (oc w)))
          else streams (oc w') = streams (oc w) \<and> audio_st w' = None)
       \<and> (\<forall>frames. WriteFrames av w' frames =
             (if audio_st w' \<noteq> None then write_audio_packets av w' frames else Some (Inr w')))
       \<and> (\<forall>frames w''. WriteFrames av w' frames = Some (Inr w'') \<longrightarrow>
             scaled w'' = scaled w' \<and> video_encoded w'' = video_encoded w' \<and> video_st w'' = None)"
proof -
  from assms obtain w1 where i: "initialize_streams av w = Inr w1"
    by (auto simp: PrepareStreams_def split: sum.splits)
  note i1 = initialize_streams_audio_only[OF assms(2) i]
  have nv: "\<not> has_video (info w1)" using i1 assms by simp
  have w': "w' = w1 \<or> open_audio av w1 (audio_st w1) = Inr w'"
    using assms i nv by (auto simp: PrepareStreams_def split: if_splits)
  have v: "video_st w' = None" and inf: "info w' = info w" and a: "audio_st w' = audio_st w1"
    and l: "length (streams (oc w')) = length (streams (oc w1))"
    using w' i1 by (auto dest: open_audio_keeps)
  have s: "if audio_codec (fmt w) \<noteq> CODEC_ID_NONE
          then length (streams (oc w')) = Suc (length (streams (oc w)))
               \<and> audio_st w' = Some (length (streams (oc w)))
          else streams (oc w') = streams (oc w) \<and> audio_st w' = None"
  proof (cases "audio_codec (fmt w) \<noteq> CODEC_ID_NONE")
    case True
    with i1(4) assms(1) a l show ?thesis by simp
  next
    case False
    with i1(4) have "oc w1 = oc w" and n: "audio_st w1 = None" by simp_all
    moreover from n i nv assms have "w' = w1"
      by (auto simp: PrepareStreams_def split: if_splits)
    ultimately show ?thesis using False by simp
  qed
  have f: "WriteFrames av w' frames =
             (if audio_st w' \<noteq> None then write_audio_packets av w' frames else Some (Inr w'))"
    for frames
    using WriteFrames_no_video[of w' av frames] v inf assms(1) by simp
  have k: "scaled w'' = scaled w' \<and> video_encoded w'' = video_encoded w' \<and> video_st w'' = None"
    if "WriteFrames av w' frames = Some (Inr w'')" for frames w''
  proof (cases "audio_st w' \<noteq> None")
    case True
    with that f have "write_audio_packets av w' frames = Some (Inr w'')" by simp
    from write_audio_packets_keeps[OF this] v show ?thesis by simp
  next
    case False
    with that f v show ?thesis by simp
  qed
  show ?thesis using v s f k by blast
qed

subsection \<open>The accumulator loop\<close>

lemma memcpy_Inr:
  assumes "memcpy dst d src s n = Inr r"
  shows "0 \<le> n" "0 \<le> d" "0 \<le> s" "d + n \<le> int (length dst)" "s + n \<le> int (length src)"
    and "length r = length dst"
    and "take (nat (d + n)) r = take (nat d) dst @ take (nat n) (drop (nat s) src)"
proof -
  from assms have b: "0 \<le> n" "0 \<le> d" "0 \<le> s" "d + n \<le> int (length dst)"
    "s + n \<le> int (length src)"
    and r: "r = take (nat d) dst @ take (nat n) (drop (nat s) src) @ drop (nat (d + n)) dst"
    by (auto simp: memcpy_def split: if_splits)
  show "0 \<le> n" "0 \<le> d" "0 \<le> s" "d + n \<le> int (length dst)" "s + n \<le> int (length src)"
    by (rule b)+
  have l1: "length (take (nat d) dst) = nat d" using b by simp
  have l2: "length (take (nat n) (drop (nat s) src)) = nat n" using b by simp
  show "length r = length dst" using b r l1 l2 by (simp add: nat_add_distrib) 
  have "nat (d + n) = nat d + nat n" using b by (simp add: nat_add_distrib)
  then show "take (nat (d + n)) r = take (nat d) dst @ take (nat n) (drop (nat s) src)"
    using r l1 l2 by simp
qed

lemma take_drop_split:
  assumes "0 \<le> d" "d \<le> rem" "0 \<le> pos"
  shows "take (nat rem) (drop (nat pos) fs)
         = take (nat d) (drop (nat pos) fs) @ take (nat (rem - d)) (drop (nat (pos + d)) fs)"
proof -
  have "nat rem = nat d + nat (rem - d)" using assms by simp
  moreover have "nat (pos + d) = nat d + nat pos" using assms by simp
  ultimately show ?thesis
    by (simp only: take_add drop_drop)
qed

lemma samples_needed_min: "samples_needed rem rps = min rem rps"
  by (simp add: samples_needed_def min_def)

lemma write_audio_loop_post:
  assumes "write_audio_loop av c si fn fs w pos rem = Some (Inr w')"
    and "0 \<le> audio_input_position w"
    and "audio_input_position w < audio_input_frame_size w"
    and "audio_input_position w \<le> int (length (samples w))"
    and "0 \<le> pos"
  shows "loop_post fs w pos rem w'"
proof -
  note r = write_audio_loop.raw_induct
      [where P = "\<lambda>av c si fn fs w pos rem y. \<forall>w'. y = Inr w' \<longrightarrow>
         0 \<le> audio_input_position w \<longrightarrow> audio_input_position w < audio_input_frame_size w \<longrightarrow>
         audio_input_position w \<le> int (length (samples w)) \<longrightarrow> 0 \<le> pos \<longrightarrow>
         loop_post fs w pos rem w'",
       OF _ assms(1)]
  have "\<forall>w''. (Inr w' :: error + FFmpegWriter) = Inr w'' \<longrightarrow>
         0 \<le> audio_input_position w \<longrightarrow> audio_input_position w < audio_input_frame_size w \<longrightarrow>
         audio_input_position w \<le> int (length (samples w)) \<longrightarrow> 0 \<le> pos \<longrightarrow>
         loop_post fs w pos rem w''"
  proof (rule r, goal_cases)
    case (1 loop av c si fn fs w pos rem y)
    show ?case
    proof (intro allI impI)
      fix w' assume y: "y = Inr w'"
        and P0: "0 \<le> audio_input_position w"
        and PF: "audio_input_position w < audio_input_frame_size w"
        and PL: "audio_input_position w \<le> int (length (samples w))"
        and pos: "0 \<le> pos"
      let ?P = "audio_input_position w" and ?F = "audio_input_frame_size w"
      show "loop_post fs w pos rem w'"
      proof (cases "0 < rem")
        case False
        with 1(2) y have "w' = w" by simp
        with False P0 PF PL show ?thesis
          by (auto simp: loop_post_def intro!: exI[of _ "[]"])
      next
        case True
        from 1(2) True y obtain rps s1 where
          rps: "chk (?F - ?P) = Inr rps"
          and s1: "memcpy (samples w) ?P fs pos (samples_needed rem rps) = Inr s1"
          by (auto simp: Let_def split: sum.splits if_splits)
        from rps have rps_eq: "rps = ?F - ?P" by (auto simp: chk_def split: if_splits)
        let ?d = "samples_needed rem rps"
        note m = memcpy_Inr[OF s1]
        have d: "?d = min rem (?F - ?P)" by (simp add: samples_needed_min rps_eq)
        show ?thesis
        proof (cases "?P + ?d < ?F")
          case lt: True
          with 1(2) True y rps s1
          have w': "w' = w\<lparr>samples := s1, audio_input_position := ?P + ?d\<rparr>"
            by (simp add: Let_def)
          from lt d have drem: "?d = rem" by (simp add: min_def split: if_splits)
          have "take (nat (?P + ?d)) s1 = take (nat ?P) (samples w) @ take (nat rem) (drop (nat pos) fs)"
            using m(7) drem by simp
          with w' lt m P0 show ?thesis
            by (auto simp: loop_post_def intro!: exI[of _ "[]"])
        next
          case ge: False
          let ?chunk = "take (nat ?F) s1"
          let ?enc = "avcodec_encode_audio av (audio_encoded w) c ?chunk"
          let ?pkt = "audio_packet ?enc si"
          let ?w3 = "w\<lparr>samples := s1, audio_input_position := ?P + ?d,
              audio_outbuf := enc_bytes ?enc, audio_encoded := audio_encoded w @ [?chunk],
              written := written w @ [?pkt], audio_input_position := 0\<rparr>"
          from 1(2) True y rps s1 ge
          have rec: "loop av c si fn fs ?w3 (pos + ?d) (rem - ?d) = Some (Inr w')"
            by (simp add: Let_def split: if_splits)
          from ge d have dF: "?P + ?d = ?F" and drem: "?d \<le> rem"
            by (simp_all add: min_def split: if_splits)
          have chunk: "?chunk = take (nat ?P) (samples w) @ take (nat ?d) (drop (nat pos) fs)"
            using m(7) dF by simp
          have len: "int (length ?chunk) = ?F"
            using m(4,6) dF P0 m(1) by simp
          have "loop_post fs ?w3 (pos + ?d) (rem - ?d) w'"
            using 1(1)[OF rec] PF P0 pos m(1) by simp
          then obtain chunks where
            e: "audio_encoded w' = (audio_encoded w @ [?chunk]) @ chunks"
            and a: "\<forall>ch\<in>set chunks. int (length ch) = ?F"
            and c: "concat chunks @ take (nat (audio_input_position w')) (samples w')
                     = take (nat (rem - ?d)) (drop (nat (pos + ?d)) fs)"
            and rest: "0 \<le> audio_input_position w'" "audio_input_position w' < ?F"
              "audio_input_position w' \<le> int (length (samples w'))"
            by (auto simp: loop_post_def)
          have "concat (?chunk # chunks) @ take (nat (audio_input_position w')) (samples w')
                 = take (nat ?P) (samples w) @ take (nat rem) (drop (nat pos) fs)"
            using c chunk take_drop_split[OF m(1) drem pos, of fs] by simp
          moreover have "audio_encoded w' = audio_encoded w @ (?chunk # chunks)"
            using e by simp
          moreover have "\<forall>ch\<in>set (?chunk # chunks). int (length ch) = ?F"
            using a len by simp
          ultimately show ?thesis
            unfolding loop_post_def using rest by blast
        qed
      qed
    qed
  qed
  with assms(2-5) show ?thesis by blast
qed

lemma write_audio_loop_returns:
  assumes "0 \<le> audio_input_position w" and "audio_input_position w < audio_input_frame_size w"
  shows "\<exists>y. write_audio_loop av c si fn fs w pos rem = Some y"
  using assms
proof (induction "nat rem" arbitrary: w pos rem rule: less_induct)
  case less
  let ?P = "audio_input_position w" and ?F = "audio_input_frame_size w"
  show ?case
  proof (cases "0 < rem")
    case False
    then show ?thesis by (subst write_audio_loop.simps) simp
  next
    case True
    show ?thesis
    proof (cases "chk (?F - ?P)")
      case (Inl e)
      with True show ?thesis by (subst write_audio_loop.simps) simp
    next
      case (Inr rps)
      then have rps_eq: "rps = ?F - ?P" by (auto simp: chk_def split: if_splits)
      let ?d = "samples_needed rem rps"
      have d: "?d = min rem (?F - ?P)" by (simp add: samples_needed_min rps_eq)
      show ?thesis
      proof (cases "memcpy (samples w) ?P fs pos ?d")
        case (Inl e)
        with True Inr show ?thesis by (subst write_audio_loop.simps) (simp add: Let_def)
      next
        case s1: (Inr s1)
        show ?thesis
        proof (cases "?P + ?d < ?F")
          case lt: True
          with True Inr s1 show ?thesis
            by (subst write_audio_loop.simps) (simp add: Let_def)
        next
          case ge: False
          let ?chunk = "take (nat ?F) s1"
          let ?enc = "avcodec_encode_audio av (audio_encoded w) c ?chunk"
          let ?pkt = "audio_packet ?enc si"
          let ?w3 = "w\<lparr>samples := s1, audio_input_position := ?P + ?d,
              audio_outbuf := enc_bytes ?enc, audio_encoded := audio_encoded w @ [?chunk],
              written := written w @ [?pkt], audio_input_position := 0\<rparr>"
          show ?thesis
          proof (cases "av_interleaved_write_frame av (written w) ?pkt \<noteq> 0")
            case True
            with \<open>0 < rem\<close> Inr s1 ge show ?thesis
              by (subst write_audio_loop.simps) (simp add: Let_def)
          next
            case False
            have dpos: "0 < ?d" using d True less.prems by (simp add: min_def)
            have "nat (rem - ?d) < nat rem" using dpos True by simp
            from less.hyps[OF this, of ?w3 "pos + ?d"] less.prems
            obtain y where "write_audio_loop av c si fn fs ?w3 (pos + ?d) (rem - ?d) = Some y"
              by auto
            with \<open>0 < rem\<close> Inr s1 ge False show ?thesis
              by (subst write_audio_loop.simps) (simp add: Let_def)
          qed
        qed
      qed
    qed
  qed
qed

subsection \<open>One frame, and a sequence of frames\<close>

lemma translate_samples_length: "translate_samples xs = Inr vs \<Longrightarrow> length vs = length xs"
  by (induction xs arbitrary: vs) (auto split: sum.splits)

lemma frame_samples_for_encoder_size:
  assumes "frame_samples_for_encoder av w c frame = Inr (w1, fs, n)"
  shows "audio_input_frame_size w1 =
           (if sample_fmt c \<noteq> AV_SAMPLE_FMT_S16 \<or> channels (info w) \<noteq> audio_channels_count frame
            then chunk_size w c else audio_input_frame_size w)"
    and "sample_fmt c = AV_SAMPLE_FMT_U8 \<Longrightarrow> n = 0"
  using assms
  by (auto simp: frame_samples_for_encoder_def Let_def chunk_size_def chk_def tdiv_def
      split: prod.splits if_splits sum.splits)

lemma tdiv_bytes_nonneg:
  "0 \<le> tdiv (av_get_bytes_per_sample f) (av_get_bytes_per_sample AV_SAMPLE_FMT_S16)"
  by (cases f) (simp_all add: tdiv_def)

lemma tdiv_bytes_S16:
  "tdiv (av_get_bytes_per_sample AV_SAMPLE_FMT_S16) (av_get_bytes_per_sample AV_SAMPLE_FMT_S16) = 1"
  by (simp add: tdiv_def)

lemma accumulator_ok_less:
  assumes "accumulator_ok w c"
  shows "audio_input_position w < audio_input_frame_size w"
proof -
  from assms consider "audio_input_frame_size w = chunk_size w c"
    | "audio_input_position w = 0" "audio_input_frame_size w = initial_audio_input_frame_size w"
    by (auto simp: accumulator_ok_def)
  then show ?thesis
  proof cases
    case 1
    with assms show ?thesis by (simp add: accumulator_ok_def)
  next
    case 2
    from assms have "0 < chunk_size w c" by (simp add: accumulator_ok_def)
    then have "0 < initial_audio_input_frame_size w"
      using tdiv_bytes_nonneg[of "sample_fmt c"]
      by (auto simp: chunk_size_def zero_less_mult_iff)
    with 2 show ?thesis by simp
  qed
qed

text \<open>\<^verbatim>\<open>open_audio\<close> leaves an empty accumulator in this state whenever the chunk size of
  the encoder is positive.\<close>

lemma open_audio_accumulator_ok:
  assumes o: "open_audio av w p = Inr w'"
    and e: "audio_input_position w = 0"
    and c: "0 < chunk_size w' c"
  shows "accumulator_ok w' c"
proof -
  from o have P: "audio_input_position w' = audio_input_position w"
    and F: "audio_input_frame_size w' = initial_audio_input_frame_size w'"
    by (auto simp: open_audio_def Let_def set_stream_codec_def
        split: sum.splits option.splits if_splits)
  show ?thesis
  proof (cases "sample_fmt c = AV_SAMPLE_FMT_S16")
    case True
    then have "chunk_size w' c = initial_audio_input_frame_size w'"
      by (simp add: chunk_size_def tdiv_def)
    with P F e c show ?thesis by (simp add: accumulator_ok_def)
  next
    case False
    with P F e c show ?thesis by (simp add: accumulator_ok_def)
  qed
qed

lemma write_audio_packet_post:
  assumes wap: "write_audio_packet av w frame = Some (Inr w')"
    and d: "deref w (audio_st w) = Inr (i, st)"
    and ok: "accumulator_ok w (codec st)"
  shows "accumulator_ok w' (codec st)"
    and "audio_input_frame_size w' = chunk_size w (codec st)"
    and "chunk_size w' (codec st) = chunk_size w (codec st)"
    and "deref w' (audio_st w') = Inr (i, st)"
    and "\<exists>chunks. audio_encoded w' = audio_encoded w @ chunks
           \<and> (\<forall>ch\<in>set chunks. int (length ch) = chunk_size w (codec st))
           \<and> concat chunks @ take (nat (audio_input_position w')) (samples w')
               = take (nat (audio_input_position w)) (samples w) @ submitted av w frame"
proof -
  let ?c = "codec st"
  from wap d obtain w1 fs n where
    f: "frame_samples_for_encoder av (w\<lparr>resampler := True\<rparr>) ?c frame = Inr (w1, fs, n)"
    and l: "write_audio_loop av ?c (index st) (number frame) fs w1 0 n = Some (Inr w')"
    by (auto simp: write_audio_packet_def split: sum.splits prod.splits)
  note fe = frame_samples_for_encoder_effect[OF f, of "index st"]
  note le = write_audio_loop_effect[OF l]
  have cs: "chunk_size (w\<lparr>resampler := True\<rparr>) ?c = chunk_size w ?c"
    by (simp add: chunk_size_def)
  have F1: "audio_input_frame_size w1 = chunk_size w ?c"
  proof (cases "sample_fmt ?c \<noteq> AV_SAMPLE_FMT_S16
                \<or> channels (info w) \<noteq> audio_channels_count frame")
    case True
    with frame_samples_for_encoder_size(1)[OF f] cs show ?thesis by simp
  next
    case False
    with frame_samples_for_encoder_size(1)[OF f]
    have "audio_input_frame_size w1 = audio_input_frame_size w" by simp
    moreover from False ok have "audio_input_frame_size w = chunk_size w ?c"
      by (auto simp: accumulator_ok_def)
    ultimately show ?thesis by simp
  qed
  have P1: "audio_input_position w1 = audio_input_position w" and S1: "samples w1 = samples w"
    and E1: "audio_encoded w1 = audio_encoded w"
    using fe by simp_all
  have pre: "0 \<le> audio_input_position w1" "audio_input_position w1 < audio_input_frame_size w1"
    "audio_input_position w1 \<le> int (length (samples w1))"
    using ok P1 S1 F1 by (simp_all add: accumulator_ok_def)
  from write_audio_loop_post[OF l pre] have post: "loop_post fs w1 0 n w'" by simp
  show F': "audio_input_frame_size w' = chunk_size w ?c"
    using le F1 by simp
  have I': "initial_audio_input_frame_size w' = initial_audio_input_frame_size w"
    using le fe by (simp add: audio_path_effect_def)
  then show C': "chunk_size w' ?c = chunk_size w ?c"
    by (simp add: chunk_size_def)
  show "accumulator_ok w' ?c"
    using post F' C' F1 by (simp add: accumulator_ok_def loop_post_def)
  have "oc w' = oc w" "audio_st w' = audio_st w"
    using le fe by (simp_all add: audio_path_effect_def)
  then have "deref w' (audio_st w') = deref w (audio_st w)"
    by (simp add: deref_def split: option.splits)
  with d show "deref w' (audio_st w') = Inr (i, st)" by simp
  have sub: "submitted av w frame = take (nat n) fs"
    using d f by (simp add: submitted_def)
  from post show "\<exists>chunks. audio_encoded w' = audio_encoded w @ chunks
           \<and> (\<forall>ch\<in>set chunks. int (length ch) = chunk_size w (codec st))
           \<and> concat chunks @ take (nat (audio_input_position w')) (samples w')
               = take (nat (audio_input_position w)) (samples w) @ submitted av w frame"
    unfolding loop_post_def using F1 P1 S1 E1 sub by auto
qed

lemma write_audio_packet_returns:
  assumes d: "deref w (audio_st w) = Inr (i, st)" and ok: "accumulator_ok w (codec st)"
  shows "\<exists>y. write_audio_packet av w frame = Some y"
proof (cases "frame_samples_for_encoder av (w\<lparr>resampler := True\<rparr>) (codec st) frame")
  case (Inl e)
  with d show ?thesis by (simp add: write_audio_packet_def)
next
  case (Inr r)
  obtain w1 fs n where r: "r = (w1, fs, n)" by (cases r)
  note f = Inr[unfolded r]
  note fe = frame_samples_for_encoder_effect[OF f, of "index st"]
  have cs: "chunk_size (w\<lparr>resampler := True\<rparr>) (codec st) = chunk_size w (codec st)"
    by (simp add: chunk_size_def)
  have "audio_input_frame_size w1 = chunk_size w (codec st)"
    using frame_samples_for_encoder_size(1)[OF f] cs ok by (auto simp: accumulator_ok_def)
  then have "0 \<le> audio_input_position w1" "audio_input_position w1 < audio_input_frame_size w1"
    using fe ok by (simp_all add: accumulator_ok_def)
  from write_audio_loop_returns[OF this]
  show ?thesis using d f by (simp add: write_audio_packet_def)
qed

lemma write_audio_packets_returns:
  assumes "deref w (audio_st w) = Inr (i, st)" and "accumulator_ok w (codec st)"
  shows "\<exists>y. write_audio_packets av w frames = Some y"
  using assms
proof (induction frames arbitrary: w)
  case Nil
  then show ?case by simp
next
  case (Cons frame frames)
  from write_audio_packet_returns[OF Cons.prems] obtain y
    where y: "write_audio_packet av w frame = Some y" by blast
  show ?case
  proof (cases y)
    case (Inl e)
    with y show ?thesis by simp
  next
    case (Inr w1)
    with y have k: "write_audio_packet av w frame = Some (Inr w1)" by simp
    from Cons.IH[OF write_audio_packet_post(4,1)[OF k Cons.prems]] k show ?thesis by simp
  qed
qed

lemma write_audio_packets_post:
  assumes "write_audio_packets av w frames = Some (Inr w')"
    and "deref w (audio_st w) = Inr (i, st)" and "accumulator_ok w (codec st)"
  shows "accumulator_ok w' (codec st) \<and> chunk_size w' (codec st) = chunk_size w (codec st)
       \<and> (frames \<noteq> [] \<longrightarrow> audio_input_frame_size w' = chunk_size w (codec st))
       \<and> (\<exists>chunks. audio_encoded w' = audio_encoded w @ chunks
           \<and> (\<forall>ch\<in>set chunks. int (length ch) = chunk_size w (codec st))
           \<and> concat chunks @ take (nat (audio_input_position w')) (samples w')
               = take (nat (audio_input_position w)) (samples w) @ submitted_all av w frames)"
  using assms
proof (induction frames arbitrary: w)
  case Nil
  then show ?case by (auto intro!: exI[of _ "[]"])
next
  case (Cons frame frames)
  from Cons.prems(1) obtain w1 where k: "write_audio_packet av w frame = Some (Inr w1)"
    and r: "write_audio_packets av w1 frames = Some (Inr w')"
    by (auto split: option.splits sum.splits)
  note p = write_audio_packet_post[OF k Cons.prems(2,3)]
  note ih = Cons.IH[OF r p(4) p(1)]
  from p(5) obtain chunks1 where
    e1: "audio_encoded w1 = audio_encoded w @ chunks1"
    and a1: "\<forall>ch\<in>set chunks1. int (length ch) = chunk_size w (codec st)"
    and c1: "concat chunks1 @ take (nat (audio_input_position w1)) (samples w1)
               = take (nat (audio_input_position w)) (samples w) @ submitted av w frame"
    by blast
  from ih obtain chunks2 where
    e2: "audio_encoded w' = audio_encoded w1 @ chunks2"
    and a2: "\<forall>ch\<in>set chunks2. int (length ch) = chunk_size w1 (codec st)"
    and c2: "concat chunks2 @ take (nat (audio_input_position w')) (samples w')
               = take (nat (audio_input_position w1)) (samples w1) @ submitted_all av w1 frames"
    by blast
  have e: "audio_encoded w' = audio_encoded w @ (chunks1 @ chunks2)" using e1 e2 by simp
  have a: "\<forall>ch\<in>set (chunks1 @ chunks2). int (length ch) = chunk_size w (codec st)"
    using a1 a2 p(3) by auto
  have "concat (chunks1 @ chunks2) @ take (nat (audio_input_position w')) (samples w')
          = concat chunks1 @ (take (nat (audio_input_position w1)) (samples w1)
              @ submitted_all av w1 frames)"
    using c2 by simp
  also have "\<dots> = (take (nat (audio_input_position w)) (samples w) @ submitted av w frame)
              @ submitted_all av w1 frames"
    using c1 by simp
  also have "\<dots> = take (nat (audio_input_position w)) (samples w)
              @ submitted_all av w (frame # frames)"
    using k by simp
  finally have c: "concat (chunks1 @ chunks2) @ take (nat (audio_input_position w')) (samples w')
          = take (nat (audio_input_position w)) (samples w) @ submitted_all av w (frame # frames)" .
  have F: "audio_input_frame_size w' = chunk_size w (codec st)"
  proof (cases "frames = []")
    case True
    with r p(2) show ?thesis by simp
  next
    case False
    with ih p(3) show ?thesis by simp
  qed
  have ok': "accumulator_ok w' (codec st)" using ih by simp
  have C: "chunk_size w' (codec st) = chunk_size w (codec st)" using ih p(3) by simp
  have ex: "\<exists>chunks. audio_encoded w' = audio_encoded w @ chunks
           \<and> (\<forall>ch\<in>set chunks. int (length ch) = chunk_size w (codec st))
           \<and> concat chunks @ take (nat (audio_input_position w')) (samples w')
               = take (nat (audio_input_position w)) (samples w)
                 @ submitted_all av w (frame # frames)"
    using e a c by (intro exI[of _ "chunks1 @ chunks2"]) simp
  show ?case using ok' C F ex by simp
qed

lemma frame_samples_for_encoder_count:
  assumes "frame_samples_for_encoder av w c frame = Inr (w1, fs, n)"
  shows "n \<le> int (length fs)"
    and "n = snd (interleaved_audio_samples frame (sample_rate (info w)) (audio_samples_count frame))
               * audio_channels_count frame
               * (if sample_fmt c \<noteq> AV_SAMPLE_FMT_S16
                     \<or> channels (info w) \<noteq> audio_channels_count frame
                  then tdiv (av_get_bytes_per_sample (sample_fmt c))
                         (av_get_bytes_per_sample AV_SAMPLE_FMT_S16)
                  else 1)"
proof -
  obtain floats k where ia: "interleaved_audio_samples frame (sample_rate (info w))
      (audio_samples_count frame) = (floats, k)"
    by (cases "interleaved_audio_samples frame (sample_rate (info w)) (audio_samples_count frame)")
  let ?cap = "AVCODEC_MAX_AUDIO_FRAME_SIZE av + FF_INPUT_BUFFER_PADDING_SIZE av"
  let ?t = "k * audio_channels_count frame"
  from assms ia have cap: "0 \<le> ?cap" and t: "chk ?t = Inr ?t" and tc: "?t \<le> ?cap"
    and tl: "?t \<le> int (length floats)"
    by (auto simp: frame_samples_for_encoder_def Let_def chk_def split: if_splits sum.splits)
  from assms ia cap t tc tl obtain vs where
    vs: "translate_samples (take (nat ?t) floats) = Inr vs"
    by (auto simp: frame_samples_for_encoder_def Let_def split: if_splits sum.splits)
  have lv: "length vs = nat ?t"
    using translate_samples_length[OF vs] tl by simp
  let ?fs0 = "vs @ replicate (nat ?cap - length vs) 0"
  have l0: "int (length ?fs0) = ?cap" using lv tc cap by simp
  show "n \<le> int (length fs)"
  proof (cases "sample_fmt c \<noteq> AV_SAMPLE_FMT_S16
                \<or> channels (info w) \<noteq> audio_channels_count frame")
    case False
    with assms ia cap t tc tl vs have "fs = ?fs0" "n = ?t"
      by (auto simp: frame_samples_for_encoder_def Let_def split: if_splits)
    with l0 tc show ?thesis by simp
  next
    case True
    with assms ia cap t tc tl vs obtain conv where "memcpy ?fs0 0 conv 0 n = Inr fs"
      by (auto simp: frame_samples_for_encoder_def Let_def chk_def split: if_splits sum.splits)
    from memcpy_Inr(4,6)[OF this] show ?thesis by simp
  qed
  show "n = snd (interleaved_audio_samples frame (sample_rate (info w)) (audio_samples_count frame))
               * audio_channels_count frame
               * (if sample_fmt c \<noteq> AV_SAMPLE_FMT_S16
                     \<or> channels (info w) \<noteq> audio_channels_count frame
                  then tdiv (av_get_bytes_per_sample (sample_fmt c))
                         (av_get_bytes_per_sample AV_SAMPLE_FMT_S16)
                  else 1)"
    using assms ia cap t tc tl vs
    by (auto simp: frame_samples_for_encoder_def Let_def chk_def split: if_splits sum.splits)
qed

text \<open>The number of samples that one call submits: the sample count of the frame
  times its channel count, times the quotient of the byte widths where the samples
  are converted.\<close>

lemma submitted_count:
  assumes "deref w (audio_st w) = Inr (i, st)"
    and "frame_samples_for_encoder av (w\<lparr>resampler := True\<rparr>) (codec st) frame = Inr (w1, fs, n)"
  shows "int (length (submitted av w frame)) = max 0 n"
    and "n = snd (interleaved_audio_samples frame (sample_rate (info w)) (audio_samples_count frame))
               * audio_channels_count frame
               * (if sample_fmt (codec st) \<noteq> AV_SAMPLE_FMT_S16
                     \<or> channels (info w) \<noteq> audio_channels_count frame
                  then tdiv (av_get_bytes_per_sample (sample_fmt (codec st)))
                         (av_get_bytes_per_sample AV_SAMPLE_FMT_S16)
                  else 1)"
proof -
  have "submitted av w frame = take (nat n) fs"
    using assms by (simp add: submitted_def)
  moreover have "n \<le> int (length fs)"
    by (rule frame_samples_for_encoder_count(1)[OF assms(2)])
  ultimately show "int (length (submitted av w frame)) = max 0 n" by simp
  from frame_samples_for_encoder_count(2)[OF assms(2)]
  show "n = snd (interleaved_audio_samples frame (sample_rate (info w)) (audio_samples_count frame))
               * audio_channels_count frame
               * (if sample_fmt (codec st) \<noteq> AV_SAMPLE_FMT_S16
                     \<or> channels (info w) \<noteq> audio_channels_count frame
                  then tdiv (av_get_bytes_per_sample (sample_fmt (codec st)))
                         (av_get_bytes_per_sample AV_SAMPLE_FMT_S16)
                  else 1)"
    by simp
qed

text \<open>
  C1, as the code has it. Let the accumulator be as it is between two calls, and let a
  sequence of frames be written with \<open>write_audio_packet\<close>. Then every call returns.
  When they all return without an error, every chunk that was given to the encoder
  has exactly the chunk size, and the chunks one after the other, followed by the
  filled part of the accumulator, are the samples that the accumulator held followed
  by the samples of the frames, in their order: no sample is lost and none appears
  twice, but what does not fill a chunk stays in the accumulator and is not given to
  the encoder. So the number of samples in the chunks plus the fill position is the
  old fill position plus the number of samples submitted. The fill position is at
  least 0 and below the chunk size after the last call as before the first.
\<close>

theorem accumulator_conservation:
  assumes "deref w (audio_st w) = Inr (i, st)" and "accumulator_ok w (codec st)"
  shows "(\<exists>y. write_audio_packets av w frames = Some y)
       \<and> (\<forall>w'. write_audio_packets av w frames = Some (Inr w') \<longrightarrow>
            (\<exists>chunks. audio_encoded w' = audio_encoded w @ chunks
               \<and> (\<forall>ch\<in>set chunks. int (length ch) = chunk_size w (codec st))
               \<and> concat chunks @ take (nat (audio_input_position w')) (samples w')
                   = take (nat (audio_input_position w)) (samples w) @ submitted_all av w frames
               \<and> int (length (concat chunks)) + audio_input_position w'
                   = audio_input_position w + int (length (submitted_all av w frames)))
            \<and> 0 \<le> audio_input_position w'
            \<and> audio_input_position w' < audio_input_frame_size w'
            \<and> (frames \<noteq> [] \<longrightarrow> audio_input_frame_size w' = chunk_size w (codec st))
            \<and> accumulator_ok w' (codec st))"
proof (intro conjI allI impI)
  show "\<exists>y. write_audio_packets av w frames = Some y"
    by (rule write_audio_packets_returns[OF assms])
next
  fix w' assume r: "write_audio_packets av w frames = Some (Inr w')"
  note p = write_audio_packets_post[OF r assms]
  from p show ok': "accumulator_ok w' (codec st)" by simp
  from p show "frames \<noteq> [] \<Longrightarrow> audio_input_frame_size w' = chunk_size w (codec st)" by simp
  from ok' show "0 \<le> audio_input_position w'" by (simp add: accumulator_ok_def)
  from ok' show "audio_input_position w' < audio_input_frame_size w'"
    by (rule accumulator_ok_less)
  from p obtain chunks where
    e: "audio_encoded w' = audio_encoded w @ chunks"
    and a: "\<forall>ch\<in>set chunks. int (length ch) = chunk_size w (codec st)"
    and c: "concat chunks @ take (nat (audio_input_position w')) (samples w')
               = take (nat (audio_input_position w)) (samples w) @ submitted_all av w frames"
    by blast
  have "nat (audio_input_position w') \<le> length (samples w')"
    using ok' by (auto simp: accumulator_ok_def)
  then have l': "length (take (nat (audio_input_position w')) (samples w'))
                   = nat (audio_input_position w')"
    by simp
  have "nat (audio_input_position w) \<le> length (samples w)"
    using assms(2) by (auto simp: accumulator_ok_def)
  then have l: "length (take (nat (audio_input_position w)) (samples w))
                  = nat (audio_input_position w)"
    by simp
  from c have "length (concat chunks @ take (nat (audio_input_position w')) (samples w'))
      = length (take (nat (audio_input_position w)) (samples w) @ submitted_all av w frames)"
    by simp
  then have "length (concat chunks) + nat (audio_input_position w')
      = nat (audio_input_position w) + length (submitted_all av w frames)"
    using l l' by (simp only: length_append)
  moreover have "0 \<le> audio_input_position w'" "0 \<le> audio_input_position w"
    using ok' assms(2) by (simp_all add: accumulator_ok_def)
  ultimately have n: "int (length (concat chunks)) + audio_input_position w'
                   = audio_input_position w + int (length (submitted_all av w frames))"
    by linarith
  from e a c n show "\<exists>chunks. audio_encoded w' = audio_encoded w @ chunks
               \<and> (\<forall>ch\<in>set chunks. int (length ch) = chunk_size w (codec st))
               \<and> concat chunks @ take (nat (audio_input_position w')) (samples w')
                   = take (nat (audio_input_position w)) (samples w) @ submitted_all av w frames
               \<and> int (length (concat chunks)) + audio_input_position w'
                   = audio_input_position w + int (length (submitted_all av w frames))"
    by blast
qed

theorem accumulator_conservation_witness:
  "write_audio_packets lib0 writer1 [frame0 1 1, frame0 2 2]
     = Some (Inr (writer1\<lparr>samples := [202, 203, 200, 201, 0, 0, 0, 0], audio_outbuf := [],
                    resampler := True, audio_encoded := [[100, 101, 200, 201]],
                    written := [\<lparr>pkt_pts = None, pkt_flags = {AV_PKT_FLAG_KEY}, stream_index = 1,
                                 pkt_data = EncodedBytes [], pkt_size = 4\<rparr>],
                    audio_input_position := 2\<rparr>))
   \<and> submitted_all lib0 writer1 [frame0 1 1, frame0 2 2] = [100, 101, 200, 201, 202, 203]
   \<and> (\<exists>chunks. [[100, 101, 200, 201]] = audio_encoded writer1 @ chunks
         \<and> (\<forall>ch\<in>set chunks. int (length ch) = 4)
         \<and> concat chunks @ take 2 [202, 203, 200, 201, 0, 0, 0, 0]
             = take 0 (samples writer1) @ [100, 101, 200, 201, 202, 203]
         \<and> int (length (concat chunks)) + 2 = 0 + 6)"
proof -
  let ?w' = "writer1\<lparr>samples := [202, 203, 200, 201, 0, 0, 0, 0], audio_outbuf := [],
                    resampler := True, audio_encoded := [[100, 101, 200, 201]],
                    written := [\<lparr>pkt_pts = None, pkt_flags = {AV_PKT_FLAG_KEY}, stream_index = 1,
                                 pkt_data = EncodedBytes [], pkt_size = 4\<rparr>],
                    audio_input_position := 2\<rparr>"
  have d: "deref writer1 (audio_st writer1) = Inr (1, audio_stream1)"
    by code_simp
  have ok: "accumulator_ok writer1 (codec audio_stream1)"
    by code_simp
  have r: "write_audio_packets lib0 writer1 [frame0 1 1, frame0 2 2] = Some (Inr ?w')"
    by code_simp
  have s: "submitted_all lib0 writer1 [frame0 1 1, frame0 2 2] = [100, 101, 200, 201, 202, 203]"
    by code_simp
  have c: "chunk_size writer1 (codec audio_stream1) = 4"
    by code_simp
  have p: "audio_input_position writer1 = 0"
    by code_simp
  from accumulator_conservation[OF d ok, of lib0 "[frame0 1 1, frame0 2 2]"] r s c p
  show ?thesis by (simp del: submitted_all.simps write_audio_packets.simps)
qed

text \<open>The claim as the specification words it fails: a frame of two samples is
  written, the chunk has four, and the encoder is given none of them; nothing in the
  writer flushes the accumulator.\<close>

theorem accumulator_conservation_counterexample:
  "write_audio_packets lib0 writer1 [frame0 1 1]
     = Some (Inr (writer1\<lparr>samples := [100, 101, 0, 0, 0, 0, 0, 0], resampler := True,
                    audio_input_position := 2\<rparr>))
   \<and> submitted_all lib0 writer1 [frame0 1 1] = [100, 101]
   \<and> audio_encoded (writer1\<lparr>samples := [100, 101, 0, 0, 0, 0, 0, 0], resampler := True,
                        audio_input_position := 2\<rparr>) = []
   \<and> length (concat (audio_encoded (writer1\<lparr>samples := [100, 101, 0, 0, 0, 0, 0, 0],
                                       resampler := True, audio_input_position := 2\<rparr>)))
       \<noteq> length (submitted_all lib0 writer1 [frame0 1 1])"
  by code_simp

theorem PrepareStreams_audio_only_witness:
  "PrepareStreams lib0 (writer0\<lparr>info := info0\<lparr>has_video := False\<rparr>\<rparr>) = Inr writer_audio
   \<and> video_st writer_audio = None
   \<and> length (streams (oc writer_audio)) = 1
   \<and> audio_st writer_audio = Some 0
   \<and> WriteFrames lib0 writer_audio [frame0 1 2] = write_audio_packets lib0 writer_audio [frame0 1 2]"
proof -
  let ?w = "writer0\<lparr>info := info0\<lparr>has_video := False\<rparr>\<rparr>"
  have a: "has_audio (info ?w)" and v: "\<not> has_video (info ?w)"
    by (simp_all add: info0_def)
  have p: "PrepareStreams lib0 ?w = Inr writer_audio"
    by code_simp
  have c: "audio_codec (fmt ?w) \<noteq> CODEC_ID_NONE" "streams (oc ?w) = []"
    by (simp_all add: writer0_def)
  note t = PrepareStreams_audio_only[OF a v p]
  from t c have s: "video_st writer_audio = None" "length (streams (oc writer_audio)) = 1"
    "audio_st writer_audio = Some 0"
    by simp_all
  from t have "WriteFrames lib0 writer_audio [frame0 1 2] =
      (if audio_st writer_audio \<noteq> None then write_audio_packets lib0 writer_audio [frame0 1 2]
       else Some (Inr writer_audio))"
    by blast
  with s have "WriteFrames lib0 writer_audio [frame0 1 2]
      = write_audio_packets lib0 writer_audio [frame0 1 2]"
    by (simp only: option.distinct not_False_eq_True if_True)
  with p s show ?thesis by (simp only: simp_thms)
qed

text \<open>The claim as the specification words it fails: audio is enabled, video is not,
  the container has no audio codec, and \<open>PrepareStreams\<close> returns without a stream.\<close>

theorem PrepareStreams_audio_only_counterexample:
  "has_audio (info (writer0\<lparr>info := info0\<lparr>has_video := False, acodec := []\<rparr>,
                            fmt := \<lparr>video_codec = CODEC_ID_OTHER 3, audio_codec = CODEC_ID_NONE,
                                    flags = {}\<rparr>\<rparr>))
   \<and> \<not> has_video (info (writer0\<lparr>info := info0\<lparr>has_video := False, acodec := []\<rparr>,
                            fmt := \<lparr>video_codec = CODEC_ID_OTHER 3, audio_codec = CODEC_ID_NONE,
                                    flags = {}\<rparr>\<rparr>))
   \<and> PrepareStreams lib0 (writer0\<lparr>info := info0\<lparr>has_video := False, acodec := []\<rparr>,
                            fmt := \<lparr>video_codec = CODEC_ID_OTHER 3, audio_codec = CODEC_ID_NONE,
                                    flags = {}\<rparr>\<rparr>)
       = Inr (writer0\<lparr>info := info0\<lparr>has_video := False, acodec := []\<rparr>,
                      fmt := \<lparr>video_codec = CODEC_ID_OTHER 3, audio_codec = CODEC_ID_NONE,
                              flags = {}\<rparr>\<rparr>)
   \<and> length (streams (oc (writer0\<lparr>info := info0\<lparr>has_video := False, acodec := []\<rparr>,
                          fmt := \<lparr>video_codec = CODEC_ID_OTHER 3, audio_codec = CODEC_ID_NONE,
                                  flags = {}\<rparr>\<rparr>))) \<noteq> 1"
  by code_simp

subsection \<open>The chunk size after a conversion\<close>

lemma write_audio_loop_nothing:
  "rem \<le> 0 \<Longrightarrow> write_audio_loop av c si fn fs w pos rem = Some (Inr w)"
  by (subst write_audio_loop.simps) simp

lemma translate_samples_Inl:
  "translate_samples xs = Inl e \<Longrightarrow> e = Undefined FloatToIntOverflow"
  by (induction xs arbitrary: e)
     (auto simp: float_to_int_def Let_def split: sum.splits if_splits)

lemma frame_samples_for_encoder_ResampleError:
  assumes "frame_samples_for_encoder av w c frame = Inl ResampleError"
  shows "\<not> av_audio_resample_init av (channels (info w)) (audio_channels_count frame)
             (sample_rate (info w)) (sample_rate (info w)) (sample_fmt c) AV_SAMPLE_FMT_S16"
  using assms
  by (auto simp: frame_samples_for_encoder_def Let_def chk_def memcpy_def
      split: prod.splits if_splits sum.splits dest: translate_samples_Inl)

lemma write_audio_loop_no_ResampleError:
  assumes "write_audio_loop av c si fn fs w pos rem = Some y"
  shows "y \<noteq> Inl ResampleError"
proof (rule write_audio_loop.raw_induct
      [where P = "\<lambda>av c si fn fs w pos rem y. y \<noteq> Inl ResampleError", OF _ assms], goal_cases)
  case (1 loop av c si fn fs w pos rem y)
  show ?case
  proof
    assume y: "y = Inl ResampleError"
    with 1(2) have "\<exists>w3 p r. loop av c si fn fs w3 p r = Some (Inl ResampleError)"
      by (auto simp: Let_def chk_def memcpy_def split: if_splits sum.splits)
    with 1(1) show False by blast
  qed
qed

lemma frame_samples_for_encoder_runs:
  assumes n: "sample_fmt c \<noteq> AV_SAMPLE_FMT_S16 \<or> channels (info w) \<noteq> audio_channels_count frame"
    and r: "conversion_can_run av w c frame"
  shows "\<exists>conv fs. frame_samples_for_encoder av w c frame
           = Inr (w\<lparr>converted_audio := conv, audio_input_frame_size := chunk_size w c\<rparr>,
                  fs, converted_total w c frame)"
    and "in_int (chunk_size w c)"
proof -
  obtain floats k where ia: "interleaved_audio_samples frame (sample_rate (info w))
      (audio_samples_count frame) = (floats, k)"
    by (cases "interleaved_audio_samples frame (sample_rate (info w)) (audio_samples_count frame)")
  let ?cap = "AVCODEC_MAX_AUDIO_FRAME_SIZE av + FF_INPUT_BUFFER_PADDING_SIZE av"
  let ?t = "k * audio_channels_count frame"
  let ?ratio = "tdiv (av_get_bytes_per_sample (sample_fmt c))
                  (av_get_bytes_per_sample AV_SAMPLE_FMT_S16)"
  from r ia obtain vs where cap: "0 \<le> ?cap" and ti: "in_int ?t" and tc: "?t \<le> ?cap"
    and tl: "?t \<le> int (length floats)"
    and vs: "translate_samples (take (nat ?t) floats) = Inr vs"
    and rest: "av_audio_resample_init av (channels (info w)) (audio_channels_count frame)
                   (sample_rate (info w)) (sample_rate (info w)) (sample_fmt c) AV_SAMPLE_FMT_S16"
      "length (audio_resample av (channels (info w)) (audio_channels_count frame)
                 (sample_fmt c) (vs @ replicate (nat ?cap - length vs) 0) ?t)
         \<le> length (converted_audio w)"
      "in_int (?t * ?ratio)" "in_int (initial_audio_input_frame_size w * ?ratio)"
      "0 \<le> ?t * ?ratio" "?t * ?ratio \<le> ?cap" "?t * ?ratio \<le> int (length (converted_audio w))"
    by (auto simp: conversion_can_run_def Let_def split: sum.splits)
  show "in_int (chunk_size w c)" using rest(4) by (simp add: chunk_size_def)
  let ?fs0 = "vs @ replicate (nat ?cap - length vs) 0"
  let ?out = "audio_resample av (channels (info w)) (audio_channels_count frame)
                 (sample_fmt c) ?fs0 ?t"
  have lv: "length vs = nat ?t"
    using translate_samples_length[OF vs] tl by simp
  have l0: "int (length ?fs0) = ?cap" using lv tc cap by simp
  obtain conv where m1: "memcpy (converted_audio w) 0 ?out 0 (int (length ?out)) = Inr conv"
    using rest(2) by (simp add: memcpy_def)
  have lc: "length conv = length (converted_audio w)" by (rule memcpy_Inr(6)[OF m1])
  obtain fs where m2: "memcpy ?fs0 0 conv 0 (?t * ?ratio) = Inr fs"
    using rest(5,6,7) l0 lc by (simp add: memcpy_def)
  have "frame_samples_for_encoder av w c frame
           = Inr (w\<lparr>converted_audio := conv, audio_input_frame_size := chunk_size w c\<rparr>,
                  fs, converted_total w c frame)"
    using n ia cap ti tc tl vs rest(1,3,4) m1 m2
    by (simp add: frame_samples_for_encoder_def Let_def chk_def chunk_size_def
        converted_total_def)
  then show "\<exists>conv fs. frame_samples_for_encoder av w c frame
           = Inr (w\<lparr>converted_audio := conv, audio_input_frame_size := chunk_size w c\<rparr>,
                  fs, converted_total w c frame)"
    by blast
qed

lemma write_audio_loop_succeeds:
  assumes "0 \<le> audio_input_position w" and "audio_input_position w < audio_input_frame_size w"
    and "audio_input_frame_size w \<le> int (length (samples w))"
    and "in_int (audio_input_frame_size w)"
    and "0 \<le> pos" and "pos + rem \<le> int (length fs)"
    and "\<forall>earlier pkt. av_interleaved_write_frame av earlier pkt = 0"
  shows "\<exists>w'. write_audio_loop av c si fn fs w pos rem = Some (Inr w')"
  using assms
proof (induction "nat rem" arbitrary: w pos rem rule: less_induct)
  case less
  let ?P = "audio_input_position w" and ?F = "audio_input_frame_size w"
  show ?case
  proof (cases "0 < rem")
    case False
    then show ?thesis by (subst write_audio_loop.simps) simp
  next
    case True
    have "in_int (?F - ?P)" using less.prems(1,2,4) by (simp add: in_int_def)
    then have rps: "chk (?F - ?P) = Inr (?F - ?P)" by (simp add: chk_def)
    let ?d = "samples_needed rem (?F - ?P)"
    have d: "?d = min rem (?F - ?P)" by (simp add: samples_needed_min)
    have dpos: "0 < ?d" and drem: "?d \<le> rem" and dF: "?P + ?d \<le> ?F"
      using d True less.prems(2) by (simp_all add: min_def)
    obtain s1 where s1: "memcpy (samples w) ?P fs pos ?d = Inr s1"
      using dpos drem dF less.prems(1,3,5,6) by (simp add: memcpy_def)
    have ls: "length s1 = length (samples w)" by (rule memcpy_Inr(6)[OF s1])
    show ?thesis
    proof (cases "?P + ?d < ?F")
      case lt: True
      with True rps s1 show ?thesis
        by (subst write_audio_loop.simps) (simp add: Let_def)
    next
      case ge: False
      let ?chunk = "take (nat ?F) s1"
      let ?enc = "avcodec_encode_audio av (audio_encoded w) c ?chunk"
      let ?pkt = "audio_packet ?enc si"
      let ?w3 = "w\<lparr>samples := s1, audio_input_position := ?P + ?d,
          audio_outbuf := enc_bytes ?enc, audio_encoded := audio_encoded w @ [?chunk],
          written := written w @ [?pkt], audio_input_position := 0\<rparr>"
      have acc: "av_interleaved_write_frame av (written w) ?pkt = 0"
        using less.prems(7) by blast
      have "nat (rem - ?d) < nat rem" using dpos True by simp
      from less.hyps[OF this, of ?w3 "pos + ?d"] less.prems ls dpos
      obtain w' where "write_audio_loop av c si fn fs ?w3 (pos + ?d) (rem - ?d) = Some (Inr w')"
        by auto
      with True rps s1 ge acc show ?thesis
        by (subst write_audio_loop.simps) (simp add: Let_def)
    qed
  qed
qed

lemma write_audio_packet_returning:
  assumes d: "deref w (audio_st w) = Inr (i, st)"
    and n: "sample_fmt (codec st) \<noteq> AV_SAMPLE_FMT_S16
            \<or> channels (info w) \<noteq> audio_channels_count frame"
    and w': "write_audio_packet av w frame = Some (Inr w')"
  shows "audio_input_frame_size w'
           = initial_audio_input_frame_size w
               * tdiv (av_get_bytes_per_sample (sample_fmt (codec st)))
                   (av_get_bytes_per_sample AV_SAMPLE_FMT_S16)
       \<and> initial_audio_input_frame_size w' = initial_audio_input_frame_size w
       \<and> (even (av_get_bytes_per_sample (sample_fmt (codec st))) \<longrightarrow>
            audio_input_frame_size w' * av_get_bytes_per_sample AV_SAMPLE_FMT_S16
              = initial_audio_input_frame_size w * av_get_bytes_per_sample (sample_fmt (codec st)))
       \<and> (sample_fmt (codec st) = AV_SAMPLE_FMT_U8 \<longrightarrow>
            audio_input_frame_size w' = 0 \<and> audio_encoded w' = audio_encoded w
            \<and> written w' = written w \<and> audio_input_position w' = audio_input_position w)"
proof -
  let ?c = "codec st"
  from w' d obtain w1 fs n where
    f: "frame_samples_for_encoder av (w\<lparr>resampler := True\<rparr>) ?c frame = Inr (w1, fs, n)"
    and l: "write_audio_loop av ?c (index st) (number frame) fs w1 0 n = Some (Inr w')"
    by (auto simp: write_audio_packet_def split: sum.splits prod.splits)
  note fe = frame_samples_for_encoder_effect[OF f, of "index st"]
  note le = write_audio_loop_effect[OF l]
  have F1: "audio_input_frame_size w1 = chunk_size w ?c"
    using frame_samples_for_encoder_size(1)[OF f] n by (simp add: chunk_size_def)
  have F: "audio_input_frame_size w'
           = initial_audio_input_frame_size w
               * tdiv (av_get_bytes_per_sample (sample_fmt ?c))
                   (av_get_bytes_per_sample AV_SAMPLE_FMT_S16)"
    using le F1 by (simp add: chunk_size_def)
  have I: "initial_audio_input_frame_size w' = initial_audio_input_frame_size w"
    using le fe by (simp add: audio_path_effect_def)
  have E: "audio_input_frame_size w' * av_get_bytes_per_sample AV_SAMPLE_FMT_S16
              = initial_audio_input_frame_size w * av_get_bytes_per_sample (sample_fmt ?c)"
    if "even (av_get_bytes_per_sample (sample_fmt ?c))"
    using that F by (cases "sample_fmt ?c") (simp_all add: tdiv_def)
  have U: "audio_input_frame_size w' = 0 \<and> audio_encoded w' = audio_encoded w
            \<and> written w' = written w \<and> audio_input_position w' = audio_input_position w"
    if u: "sample_fmt ?c = AV_SAMPLE_FMT_U8"
  proof -
    from frame_samples_for_encoder_size(2)[OF f u] have "n = 0" .
    with l have "w' = w1" by (simp add: write_audio_loop_nothing)
    with fe F u show ?thesis by (simp add: tdiv_def)
  qed
  show ?thesis using F I E U by blast
qed

lemma write_audio_packet_ResampleError:
  assumes d: "deref w (audio_st w) = Inr (i, st)"
    and e: "write_audio_packet av w frame = Some (Inl ResampleError)"
  shows "\<not> av_audio_resample_init av (channels (info w)) (audio_channels_count frame)
             (sample_rate (info w)) (sample_rate (info w)) (sample_fmt (codec st))
             AV_SAMPLE_FMT_S16"
proof (cases "frame_samples_for_encoder av (w\<lparr>resampler := True\<rparr>) (codec st) frame")
  case (Inl e')
  with d e have "e' = ResampleError" by (simp add: write_audio_packet_def)
  with Inl frame_samples_for_encoder_ResampleError[of av "w\<lparr>resampler := True\<rparr>" "codec st" frame]
  show ?thesis by simp
next
  case (Inr r)
  obtain w1 fs n where "r = (w1, fs, n)" by (cases r)
  with Inr d e have "write_audio_loop av (codec st) (index st) (number frame) fs w1 0 n
                       = Some (Inl ResampleError)"
    by (simp add: write_audio_packet_def)
  from write_audio_loop_no_ResampleError[OF this] show ?thesis by simp
qed

lemma write_audio_packet_converts:
  assumes d: "deref w (audio_st w) = Inr (i, st)"
    and n: "sample_fmt (codec st) \<noteq> AV_SAMPLE_FMT_S16
            \<or> channels (info w) \<noteq> audio_channels_count frame"
    and r: "conversion_can_run av w (codec st) frame"
    and a: "converted_total w (codec st) frame \<le> 0
            \<or> (0 \<le> audio_input_position w
                \<and> audio_input_position w < chunk_size w (codec st)
                \<and> chunk_size w (codec st) \<le> int (length (samples w))
                \<and> (\<forall>earlier pkt. av_interleaved_write_frame av earlier pkt = 0))"
  shows "\<exists>w'. write_audio_packet av w frame = Some (Inr w')
              \<and> audio_input_frame_size w' = chunk_size w (codec st)"
proof -
  let ?c = "codec st" and ?w0 = "w\<lparr>resampler := True\<rparr>"
  have n0: "sample_fmt ?c \<noteq> AV_SAMPLE_FMT_S16
            \<or> channels (info ?w0) \<noteq> audio_channels_count frame"
    using n by simp
  have "conversion_can_run av ?w0 ?c frame = conversion_can_run av w ?c frame"
    by (simp add: conversion_can_run_def Let_def cong: prod.case_cong sum.case_cong)
  with r have r0: "conversion_can_run av ?w0 ?c frame"
    by simp
  have c0: "chunk_size ?w0 ?c = chunk_size w ?c" "converted_total ?w0 ?c frame = converted_total w ?c frame"
    by (simp_all add: chunk_size_def converted_total_def)
  from frame_samples_for_encoder_runs[OF n0 r0] c0 obtain conv fs where
    f: "frame_samples_for_encoder av ?w0 ?c frame
          = Inr (?w0\<lparr>converted_audio := conv, audio_input_frame_size := chunk_size w ?c\<rparr>,
                 fs, converted_total w ?c frame)"
    and ii: "in_int (chunk_size w ?c)"
    by auto
  let ?w1 = "?w0\<lparr>converted_audio := conv, audio_input_frame_size := chunk_size w ?c\<rparr>"
  let ?n = "converted_total w ?c frame"
  have wap: "write_audio_packet av w frame
               = write_audio_loop av ?c (index st) (number frame) fs ?w1 0 ?n"
    using d f by (simp add: write_audio_packet_def)
  have "\<exists>w'. write_audio_loop av ?c (index st) (number frame) fs ?w1 0 ?n = Some (Inr w')"
  proof (cases "?n \<le> 0")
    case True
    then show ?thesis by (simp add: write_audio_loop_nothing)
  next
    case False
    with a have p: "0 \<le> audio_input_position w" "audio_input_position w < chunk_size w ?c"
      "chunk_size w ?c \<le> int (length (samples w))"
      "\<forall>earlier pkt. av_interleaved_write_frame av earlier pkt = 0"
      by auto
    have "0 + ?n \<le> int (length fs)"
      using frame_samples_for_encoder_count(1)[OF f] by simp
    with p ii show ?thesis
      by (intro write_audio_loop_succeeds) simp_all
  qed
  then obtain w' where l: "write_audio_loop av ?c (index st) (number frame) fs ?w1 0 ?n
                             = Some (Inr w')"
    by blast
  from write_audio_loop_effect[OF l] have "audio_input_frame_size w' = chunk_size w ?c" by simp
  with l wap show ?thesis by simp
qed

text \<open>
  C8: let the sample format of the encoder be other than signed 16 bit, or the channel
  count of the frame other than the one of the writer. Then \<open>write_audio_packet\<close> sets
  the chunk size to the initial chunk size times the quotient, in integers, of the
  byte width of the encoder's format by that of signed 16 bit, whatever that format
  is: the call returns with this chunk size whenever the conversion can run (the
  library creates the resample context and the samples fit the buffers and \<^verbatim>\<open>int\<close>)
  and either nothing is left to accumulate or the accumulator is within its chunk
  and the container accepts the packets. Every call that returns has this chunk size
  and keeps the initial one; for a byte width that is a multiple of two it is the
  exact ratio. No format is refused: \<open>ResampleError\<close> comes from the library alone,
  and for unsigned 8 bit the quotient is 0, the chunk size becomes 0 and the encoder
  is given nothing.
\<close>

theorem chunk_size_recomputed:
  assumes "deref w (audio_st w) = Inr (i, st)"
    and "sample_fmt (codec st) \<noteq> AV_SAMPLE_FMT_S16
         \<or> channels (info w) \<noteq> audio_channels_count frame"
  shows "(conversion_can_run av w (codec st) frame
          \<and> (converted_total w (codec st) frame \<le> 0
             \<or> (0 \<le> audio_input_position w
                 \<and> audio_input_position w < chunk_size w (codec st)
                 \<and> chunk_size w (codec st) \<le> int (length (samples w))
                 \<and> (\<forall>earlier pkt. av_interleaved_write_frame av earlier pkt = 0)))
          \<longrightarrow> (\<exists>w'. write_audio_packet av w frame = Some (Inr w')
                 \<and> audio_input_frame_size w'
                     = initial_audio_input_frame_size w
                         * tdiv (av_get_bytes_per_sample (sample_fmt (codec st)))
                             (av_get_bytes_per_sample AV_SAMPLE_FMT_S16)))
       \<and> (write_audio_packet av w frame = Some (Inl ResampleError)
          \<longrightarrow> \<not> av_audio_resample_init av (channels (info w)) (audio_channels_count frame)
                   (sample_rate (info w)) (sample_rate (info w)) (sample_fmt (codec st))
                   AV_SAMPLE_FMT_S16)
       \<and> (\<forall>w'. write_audio_packet av w frame = Some (Inr w') \<longrightarrow>
            audio_input_frame_size w'
              = initial_audio_input_frame_size w
                  * tdiv (av_get_bytes_per_sample (sample_fmt (codec st)))
                      (av_get_bytes_per_sample AV_SAMPLE_FMT_S16)
            \<and> initial_audio_input_frame_size w' = initial_audio_input_frame_size w
            \<and> (even (av_get_bytes_per_sample (sample_fmt (codec st))) \<longrightarrow>
                 audio_input_frame_size w' * av_get_bytes_per_sample AV_SAMPLE_FMT_S16
                   = initial_audio_input_frame_size w
                       * av_get_bytes_per_sample (sample_fmt (codec st)))
            \<and> (sample_fmt (codec st) = AV_SAMPLE_FMT_U8 \<longrightarrow>
                 audio_input_frame_size w' = 0 \<and> audio_encoded w' = audio_encoded w
                 \<and> written w' = written w
                 \<and> audio_input_position w' = audio_input_position w))"
proof (intro conjI impI allI)
  assume h: "conversion_can_run av w (codec st) frame
          \<and> (converted_total w (codec st) frame \<le> 0
             \<or> (0 \<le> audio_input_position w
                 \<and> audio_input_position w < chunk_size w (codec st)
                 \<and> chunk_size w (codec st) \<le> int (length (samples w))
                 \<and> (\<forall>earlier pkt. av_interleaved_write_frame av earlier pkt = 0)))"
  then have r: "conversion_can_run av w (codec st) frame"
    and a: "converted_total w (codec st) frame \<le> 0
             \<or> (0 \<le> audio_input_position w
                 \<and> audio_input_position w < chunk_size w (codec st)
                 \<and> chunk_size w (codec st) \<le> int (length (samples w))
                 \<and> (\<forall>earlier pkt. av_interleaved_write_frame av earlier pkt = 0))"
    by blast+
  from write_audio_packet_converts[OF assms r a]
  show "\<exists>w'. write_audio_packet av w frame = Some (Inr w')
                 \<and> audio_input_frame_size w'
                     = initial_audio_input_frame_size w
                         * tdiv (av_get_bytes_per_sample (sample_fmt (codec st)))
                             (av_get_bytes_per_sample AV_SAMPLE_FMT_S16)"
    by (simp add: chunk_size_def)
next
  assume "write_audio_packet av w frame = Some (Inl ResampleError)"
  from write_audio_packet_ResampleError[OF assms(1) this]
  show "\<not> av_audio_resample_init av (channels (info w)) (audio_channels_count frame)
                   (sample_rate (info w)) (sample_rate (info w)) (sample_fmt (codec st))
                   AV_SAMPLE_FMT_S16" .
next
  fix w' assume w': "write_audio_packet av w frame = Some (Inr w')"
  note k = write_audio_packet_returning[OF assms w']
  from k show "audio_input_frame_size w'
              = initial_audio_input_frame_size w
                  * tdiv (av_get_bytes_per_sample (sample_fmt (codec st)))
                      (av_get_bytes_per_sample AV_SAMPLE_FMT_S16)" by blast
  from k show "initial_audio_input_frame_size w' = initial_audio_input_frame_size w" by blast
  from k show "audio_input_frame_size w' * av_get_bytes_per_sample AV_SAMPLE_FMT_S16
                   = initial_audio_input_frame_size w
                       * av_get_bytes_per_sample (sample_fmt (codec st))"
    if "even (av_get_bytes_per_sample (sample_fmt (codec st)))" using that by blast
  from k show "audio_input_frame_size w' = 0"  "audio_encoded w' = audio_encoded w"
    "written w' = written w" "audio_input_position w' = audio_input_position w"
    if "sample_fmt (codec st) = AV_SAMPLE_FMT_U8" using that by blast+
qed

theorem chunk_size_recomputed_witness:
  "write_audio_packet lib0 writer_s32 (frame0 1 1)
     = Some (Inr (writer_s32\<lparr>samples := [100, 101, 0, 0, 0, 0, 0, 0], resampler := True,
                    converted_audio := [100, 101, 0, 0, 0, 0, 0, 0],
                    audio_input_frame_size := 8, audio_input_position := 4\<rparr>))
   \<and> write_audio_packet lib0 writer_u8 (frame0 1 2)
     = Some (Inr (writer_u8\<lparr>resampler := True,
                    converted_audio := [100, 101, 102, 103, 0, 0, 0, 0],
                    audio_input_frame_size := 0\<rparr>))
   \<and> initial_audio_input_frame_size writer_s32 = 4
   \<and> initial_audio_input_frame_size writer_u8 = 4
   \<and> tdiv (av_get_bytes_per_sample AV_SAMPLE_FMT_S32) (av_get_bytes_per_sample AV_SAMPLE_FMT_S16) = 2
   \<and> tdiv (av_get_bytes_per_sample AV_SAMPLE_FMT_U8) (av_get_bytes_per_sample AV_SAMPLE_FMT_S16) = 0
   \<and> (\<exists>w'. write_audio_packet lib0 writer_s32 (frame0 1 1) = Some (Inr w')
          \<and> audio_input_frame_size w' = 4 * 2)
   \<and> (\<exists>w'. write_audio_packet lib0 writer_u8 (frame0 1 2) = Some (Inr w')
          \<and> audio_input_frame_size w' = 4 * 0)"
proof -
  let ?s32 = "audio_stream1\<lparr>codec := (codec audio_stream1)\<lparr>sample_fmt := AV_SAMPLE_FMT_S32\<rparr>\<rparr>"
  let ?u8 = "audio_stream1\<lparr>codec := (codec audio_stream1)\<lparr>sample_fmt := AV_SAMPLE_FMT_U8\<rparr>\<rparr>"
  have d1: "deref writer_s32 (audio_st writer_s32) = Inr (1, ?s32)"
    and d2: "deref writer_u8 (audio_st writer_u8) = Inr (1, ?u8)"
    by code_simp+
  have n1: "sample_fmt (codec ?s32) \<noteq> AV_SAMPLE_FMT_S16
           \<or> channels (info writer_s32) \<noteq> audio_channels_count (frame0 1 1)"
    and n2: "sample_fmt (codec ?u8) \<noteq> AV_SAMPLE_FMT_S16
           \<or> channels (info writer_u8) \<noteq> audio_channels_count (frame0 1 2)"
    by simp_all
  have acc: "\<forall>earlier pkt. av_interleaved_write_frame lib0 earlier pkt = 0"
    by (simp add: lib0_def)
  have r1: "conversion_can_run lib0 writer_s32 (codec ?s32) (frame0 1 1)"
    and r2: "conversion_can_run lib0 writer_u8 (codec ?u8) (frame0 1 2)"
    by code_simp+
  have a1: "0 \<le> audio_input_position writer_s32"
    "audio_input_position writer_s32 < chunk_size writer_s32 (codec ?s32)"
    "chunk_size writer_s32 (codec ?s32) \<le> int (length (samples writer_s32))"
    by code_simp+
  have a2: "converted_total writer_u8 (codec ?u8) (frame0 1 2) \<le> 0"
    by code_simp
  have i: "initial_audio_input_frame_size writer_s32 = 4"
    "initial_audio_input_frame_size writer_u8 = 4"
    by code_simp+
  have t: "tdiv (av_get_bytes_per_sample AV_SAMPLE_FMT_S32) (av_get_bytes_per_sample AV_SAMPLE_FMT_S16) = 2"
    "tdiv (av_get_bytes_per_sample AV_SAMPLE_FMT_U8) (av_get_bytes_per_sample AV_SAMPLE_FMT_S16) = 0"
    by (simp_all add: tdiv_def)
  have e1: "write_audio_packet lib0 writer_s32 (frame0 1 1)
     = Some (Inr (writer_s32\<lparr>samples := [100, 101, 0, 0, 0, 0, 0, 0], resampler := True,
                    converted_audio := [100, 101, 0, 0, 0, 0, 0, 0],
                    audio_input_frame_size := 8, audio_input_position := 4\<rparr>))"
    by code_simp
  have e2: "write_audio_packet lib0 writer_u8 (frame0 1 2)
     = Some (Inr (writer_u8\<lparr>resampler := True,
                    converted_audio := [100, 101, 102, 103, 0, 0, 0, 0],
                    audio_input_frame_size := 0\<rparr>))"
    by code_simp
  from chunk_size_recomputed[OF d1 n1, of lib0] r1 a1 acc
  have x1: "\<exists>w'. write_audio_packet lib0 writer_s32 (frame0 1 1) = Some (Inr w')
          \<and> audio_input_frame_size w' = 4 * 2"
    using i t by simp
  from chunk_size_recomputed[OF d2 n2, of lib0] r2 a2
  have x2: "\<exists>w'. write_audio_packet lib0 writer_u8 (frame0 1 2) = Some (Inr w')
          \<and> audio_input_frame_size w' = 4 * 0"
    using i t by simp
  show ?thesis using e1 e2 i t x1 x2 by (simp only: simp_thms)
qed

subsection \<open>A range of frames\<close>

lemma chk_Inr: "in_int x \<Longrightarrow> chk x = Inr x"
  by (simp add: chk_def)

lemma WriteFrame_reader_eq:
  assumes "length_p < 2147483647" and "- 2147483648 \<le> number_p"
  shows "WriteFrame_reader av w reader number_p length_p
         = WriteFrames av w (map reader [number_p..length_p])"
  using assms
proof (induction av w reader number_p length_p rule: WriteFrame_reader.induct)
  case (1 av w reader number_p length_p)
  show ?case
  proof (cases "number_p \<le> length_p")
    case False
    then show ?thesis by simp
  next
    case True
    then have u: "[number_p..length_p] = number_p # [number_p + 1..length_p]"
      by (simp add: upto_rec1)
    have c: "chk (number_p + 1) = Inr (number_p + 1)"
      using True "1.prems" by (intro chk_Inr) (simp add: in_int_def)
    show ?thesis
    proof (cases "WriteFrame av w (reader number_p)")
      case None
      with True u show ?thesis by simp
    next
      case (Some r)
      show ?thesis
      proof (cases r)
        case (Inl e)
        with Some True u show ?thesis by simp
      next
        case (Inr w1)
        with Some have k: "WriteFrame av w (reader number_p) = Some (Inr w1)" by simp
        from "1.IH"[OF True Some Inr c] "1.prems"
        have "WriteFrame_reader av w1 reader (number_p + 1) length_p
              = WriteFrames av w1 (map reader [number_p + 1..length_p])"
          by simp
        with True k c u show ?thesis by simp
      qed
    qed
  qed
qed

text \<open>
  C9: \<open>WriteFrame(reader, start, length)\<close> writes the frames that the reader has at the
  numbers from \<open>start\<close> to \<open>length\<close>, both included, in this order, and stops at the
  first error as the single writes do: the third parameter is the last number, not a
  count. The frames are \<open>length - start + 1\<close> many, and none when \<open>length < start\<close>.
  The last number is below the largest \<^verbatim>\<open>int\<close>, where the increment of the loop is
  defined.
\<close>

theorem WriteFrame_reader_range:
  assumes "length_p < 2147483647" and "- 2147483648 \<le> start"
  shows "WriteFrame_reader av w reader start length_p
           = WriteFrames av w (map reader [start..length_p])
       \<and> length (map reader [start..length_p]) = nat (length_p - start + 1)
       \<and> (length_p < start \<longrightarrow> WriteFrame_reader av w reader start length_p = Some (Inr w))"
  using WriteFrame_reader_eq[OF assms] by simp

theorem WriteFrame_reader_range_witness:
  "WriteFrame_reader lib0 writer1 (\<lambda>k. frame0 k 1) 3 4
     = WriteFrames lib0 writer1 [frame0 3 1, frame0 4 1]
   \<and> length [frame0 3 1, frame0 4 1] = nat (4 - 3 + 1)"
proof -
  have "(4 :: int) < 2147483647" and "- 2147483648 \<le> (3 :: int)" by simp_all
  from WriteFrame_reader_range[OF this, of lib0 writer1 "\<lambda>k. frame0 k 1"]
  show ?thesis by (simp add: upto_rec1)
qed

end
